theory Spec2Isabelle
  imports Main
begin

section \<open>Requests, tokens and JSON values\<close>

text \<open>
  The values a request body can carry. Numbers are modelled as integers (fractions and
  the precision of doubles are left out); \<open>JOther\<close> stands for nested objects and arrays.
  A missing property (JavaScript \<open>undefined\<close>) is \<open>None\<close> of \<open>json option\<close>.
\<close>

datatype json = JNull | JBool bool | JNum int | JStr string | JOther

text \<open>JavaScript truthiness, as used by \<open>!state\<close> and \<open>if (state)\<close>.\<close>

fun truthy :: "json option \<Rightarrow> bool" where
  "truthy None = False"
| "truthy (Some JNull) = False"
| "truthy (Some (JBool b)) = b"
| "truthy (Some (JNum n)) = (n \<noteq> 0)"
| "truthy (Some (JStr s)) = (s \<noteq> [])"
| "truthy (Some JOther) = True"

text \<open>\<open>v == null\<close>: true for \<open>null\<close> and \<open>undefined\<close> only.\<close>

fun nullish :: "json option \<Rightarrow> bool" where
  "nullish None = True"
| "nullish (Some JNull) = True"
| "nullish (Some _) = False"

record ApiToken =
  owner :: string
  permissions :: "string list"

text \<open>
  A request: the token attached by the authentication layer (if any), the single path
  parameter of the route (\<open>taskId\<close>, \<open>objectiveId\<close> or \<open>levelValue\<close>; the empty string
  when missing), and the own enumerable properties of the JSON body in the order
  \<open>for ... in\<close> visits them.
\<close>

record request =
  apiToken :: "ApiToken option"
  param :: string
  body :: "(string \<times> json) list"

text \<open>
  The guard every handler opens with:
  \<open>ownerId && req.apiToken?.permissions?.includes(perm)\<close>. It yields the owner id.
\<close>

definition authorised :: "string \<Rightarrow> request \<Rightarrow> string option" where
  "authorised perm req =
     (case apiToken req of
        None \<Rightarrow> None
      | Some tok \<Rightarrow>
          if owner tok \<noteq> [] \<and> perm \<in> set (permissions tok) then Some (owner tok) else None)"

text \<open>
  A response is the HTTP status with the message or error text sent (quotation marks
  inside a message are left out).
\<close>

type_synonym response = "nat \<times> string"

datatype log_entry = LogWarn string | LogError string

section \<open>Stored documents (legacy format)\<close>

record TaskCompletionData =
  tc_complete :: "bool option"
  tc_failed :: "bool option"
  tc_timestamp :: "int option"

record TaskObjectiveData =
  to_complete :: "bool option"
  to_count :: "int option"
  to_timestamp :: "int option"

record HideoutPartData =
  hp_complete :: "bool option"
  hp_count :: "int option"

record HideoutModuleData =
  hmd_complete :: "bool option"

text \<open>An absent nested map of the document is modelled as the empty map.\<close>

record ProgressDocData =
  level :: "int option"
  displayName :: "string option"
  gameEdition :: "int option"
  pmcFaction :: "string option"
  taskCompletions :: "string \<rightharpoonup> TaskCompletionData"
  taskObjectives :: "string \<rightharpoonup> TaskObjectiveData"
  hideoutParts :: "string \<rightharpoonup> HideoutPartData"
  hideoutModules :: "string \<rightharpoonup> HideoutModuleData"

record SystemDocData =
  team :: "string option"

record UserDocData =
  teamHide :: "(string \<rightharpoonup> bool) option"

record TeamDocData =
  members :: "string list option"

text \<open>
  The document store: one map per collection, from document id to document, and whether
  the store is out of reach, in which case every read and write rejects.
\<close>

record db =
  progress :: "string \<rightharpoonup> ProgressDocData"
  system :: "string \<rightharpoonup> SystemDocData"
  user :: "string \<rightharpoonup> UserDocData"
  teams :: "string \<rightharpoonup> TeamDocData"
  unavailable :: bool

definition empty_task :: TaskCompletionData where
  "empty_task = \<lparr>tc_complete = None, tc_failed = None, tc_timestamp = None\<rparr>"

definition empty_objective :: TaskObjectiveData where
  "empty_objective = \<lparr>to_complete = None, to_count = None, to_timestamp = None\<rparr>"

definition empty_progress :: ProgressDocData where
  "empty_progress =
     \<lparr>level = None, displayName = None, gameEdition = None, pmcFaction = None,
      taskCompletions = Map.empty, taskObjectives = Map.empty,
      hideoutParts = Map.empty, hideoutModules = Map.empty\<rparr>"

subsection \<open>Field-path updates\<close>

text \<open>
  One entry of an \<open>updateData\<close> object: the dotted path
  \<open>taskCompletions.<id>.<field>\<close> or \<open>taskObjectives.<id>.<field>\<close> with the value
  assigned to it; \<open>FieldValue.delete()\<close> is a constructor of its own. The id is taken as
  one path segment.
\<close>

datatype field_update =
    SetTaskComplete string bool
  | SetTaskFailed string bool
  | SetTaskTimestamp string int
  | DeleteTaskTimestamp string
  | SetObjectiveComplete string bool
  | SetObjectiveTimestamp string int
  | DeleteObjectiveTimestamp string
  | SetObjectiveCount string int

definition task_of :: "ProgressDocData \<Rightarrow> string \<Rightarrow> TaskCompletionData" where
  "task_of d t = (case taskCompletions d t of None \<Rightarrow> empty_task | Some r \<Rightarrow> r)"

definition objective_of :: "ProgressDocData \<Rightarrow> string \<Rightarrow> TaskObjectiveData" where
  "objective_of d t = (case taskObjectives d t of None \<Rightarrow> empty_objective | Some r \<Rightarrow> r)"

text \<open>
  Writing one field path: the nested field is set (or removed), siblings are kept, and a
  missing parent record is created.
\<close>

fun apply_field :: "field_update \<Rightarrow> ProgressDocData \<Rightarrow> ProgressDocData" where
  "apply_field (SetTaskComplete t b) d =
     d\<lparr>taskCompletions := (taskCompletions d)(t \<mapsto> (task_of d t)\<lparr>tc_complete := Some b\<rparr>)\<rparr>"
| "apply_field (SetTaskFailed t b) d =
     d\<lparr>taskCompletions := (taskCompletions d)(t \<mapsto> (task_of d t)\<lparr>tc_failed := Some b\<rparr>)\<rparr>"
| "apply_field (SetTaskTimestamp t n) d =
     d\<lparr>taskCompletions := (taskCompletions d)(t \<mapsto> (task_of d t)\<lparr>tc_timestamp := Some n\<rparr>)\<rparr>"
| "apply_field (DeleteTaskTimestamp t) d =
     d\<lparr>taskCompletions := (taskCompletions d)(t \<mapsto> (task_of d t)\<lparr>tc_timestamp := None\<rparr>)\<rparr>"
| "apply_field (SetObjectiveComplete t b) d =
     d\<lparr>taskObjectives := (taskObjectives d)(t \<mapsto> (objective_of d t)\<lparr>to_complete := Some b\<rparr>)\<rparr>"
| "apply_field (SetObjectiveTimestamp t n) d =
     d\<lparr>taskObjectives := (taskObjectives d)(t \<mapsto> (objective_of d t)\<lparr>to_timestamp := Some n\<rparr>)\<rparr>"
| "apply_field (DeleteObjectiveTimestamp t) d =
     d\<lparr>taskObjectives := (taskObjectives d)(t \<mapsto> (objective_of d t)\<lparr>to_timestamp := None\<rparr>)\<rparr>"
| "apply_field (SetObjectiveCount t n) d =
     d\<lparr>taskObjectives := (taskObjectives d)(t \<mapsto> (objective_of d t)\<lparr>to_count := Some n\<rparr>)\<rparr>"

definition apply_update :: "field_update list \<Rightarrow> ProgressDocData \<Rightarrow> ProgressDocData" where
  "apply_update updateData d = fold apply_field updateData d"

text \<open>
  \<open>progressRef.update(updateData)\<close> on the owner's progress document. The store's
  \<open>update\<close> rejects when the store is out of reach or the document does not exist;
  the handlers catch that.
\<close>

definition progressRef_update :: "string \<Rightarrow> field_update list \<Rightarrow> db \<Rightarrow> string + db" where
  "progressRef_update ownerId updateData s =
     (if unavailable s then Inl ''UNAVAILABLE''
      else
        (case progress s ownerId of
           None \<Rightarrow> Inl ''NOT_FOUND''
         | Some d \<Rightarrow>
             Inr (s\<lparr>progress := (progress s)(ownerId \<mapsto> apply_update updateData d)\<rparr>)))"

text \<open>
  \<open>progressRef.set({ level: levelValue }, { merge: true })\<close>: the document is created
  when missing, and only the fields given are written.
\<close>

definition progressRef_set_level :: "string \<Rightarrow> int \<Rightarrow> db \<Rightarrow> string + db" where
  "progressRef_set_level ownerId levelValue s =
     (if unavailable s then Inl ''UNAVAILABLE''
      else
        (let d = (case progress s ownerId of None \<Rightarrow> empty_progress | Some d \<Rightarrow> d)
         in Inr (s\<lparr>progress := (progress s)(ownerId \<mapsto> d\<lparr>level := Some levelValue\<rparr>)\<rparr>)))"

section \<open>Task status updates\<close>

definition isValidTaskStatus :: "json option \<Rightarrow> bool" where
  "isValidTaskStatus status =
     (case status of
        Some (JStr s) \<Rightarrow> s = ''uncompleted'' \<or> s = ''completed'' \<or> s = ''failed''
      | _ \<Rightarrow> False)"

text \<open>
  The \<open>if / else if\<close> chain that fills the update object for one task; it occurs with
  the same text in \<open>updateSingleTask\<close> and in the loop of \<open>updateMultipleTasks\<close>.
  \<open>updateTime\<close> is the value of \<open>Date.now()\<close>.
\<close>

definition taskUpdateData :: "string \<Rightarrow> string \<Rightarrow> int \<Rightarrow> field_update list" where
  "taskUpdateData taskId state updateTime =
     (if state = ''completed'' then
        [SetTaskComplete taskId True, SetTaskFailed taskId False,
         SetTaskTimestamp taskId updateTime]
      else if state = ''failed'' then
        [SetTaskComplete taskId True, SetTaskFailed taskId True,
         SetTaskTimestamp taskId updateTime]
      else if state = ''uncompleted'' then
        [SetTaskComplete taskId False, SetTaskFailed taskId False,
         DeleteTaskTimestamp taskId]
      else [])"

text \<open>
  The collaborators of the handlers that are not part of this development: the catalog
  loaders \<open>getTaskData\<close> and \<open>getHideoutData\<close> (each may throw, \<open>Inl\<close>, or yield
  \<open>null\<close>, \<open>Inr None\<close>), the dependency propagation
  \<open>updateTaskState taskId state userId taskData\<close>, which works on the store and may
  throw after any number of writes (the \<open>Some\<close> error), and the formatter
  \<open>formatProgress\<close> of the read handlers, which may throw as well.
\<close>

record ('td, 'hd, 'fp) env =
  getTaskData :: "string + 'td option"
  getHideoutData :: "string + 'hd option"
  updateTaskState :: "string \<Rightarrow> string \<Rightarrow> string \<Rightarrow> 'td option \<Rightarrow> db \<Rightarrow> string option \<times> db"
  formatProgress :: "ProgressDocData \<Rightarrow> string \<Rightarrow> 'hd \<Rightarrow> 'td \<Rightarrow> string + 'fp"

text \<open>
  The inner \<open>try\<close> block: load the catalog, run the propagation, and on any throw log
  the error and go on. The result is the store left behind and the log lines written.
\<close>

definition propagate ::
  "('td, 'hd, 'fp) env \<Rightarrow> string \<Rightarrow> string \<Rightarrow> string \<Rightarrow> string \<Rightarrow> db \<Rightarrow> db \<times> log_entry list" where
  "propagate e msg taskId state ownerId s =
     (case getTaskData e of
        Inl err \<Rightarrow> (s, [LogError msg])
      | Inr taskData \<Rightarrow>
          (case updateTaskState e taskId state ownerId taskData s of
             (Some err, s') \<Rightarrow> (s', [LogError msg])
           | (None, s') \<Rightarrow> (s', [])))"

definition the_status :: "json option \<Rightarrow> string" where
  "the_status v = (case v of Some (JStr s) \<Rightarrow> s | _ \<Rightarrow> [])"

definition updateSingleTask ::
  "('td, 'hd, 'fp) env \<Rightarrow> int \<Rightarrow> request \<Rightarrow> db \<Rightarrow> response \<times> db \<times> log_entry list" where
  "updateSingleTask e now req s =
     (case authorised ''WP'' req of
        None \<Rightarrow> ((401, ''Unauthorized or insufficient permissions.''), s, [])
      | Some ownerId \<Rightarrow>
          (let taskId = param req; state = map_of (body req) ''state'' in
           if taskId = [] then ((400, ''Task ID is required.''), s, [])
           else if \<not> isValidTaskStatus state then
             ((400, ''Invalid state provided. Should be completed, failed, or uncompleted.''),
              s, [])
           else
             (case progressRef_update ownerId (taskUpdateData taskId (the_status state) now) s of
                Inl err \<Rightarrow>
                  ((500, ''Failed to update task.''), s, [LogError ''Error updating single task:''])
              | Inr s1 \<Rightarrow>
                  (case propagate e ''Error updating task dependencies:''
                          taskId (the_status state) ownerId s1 of
                     (s2, lg) \<Rightarrow> ((200, ''Task updated successfully.''), s2, lg)))))"

subsection \<open>Batch update\<close>

text \<open>
  The \<open>for ... in\<close> loop of \<open>updateMultipleTasks\<close>. The accumulator holds
  \<open>invalidStatusFound\<close>, \<open>batchUpdateData\<close>, the propagations started so far (each
  \<open>updatePromises.push((async () => {...})())\<close> calls its function at once, so the
  propagation of an entry is under way as soon as the entry has passed validation) and
  the log. An invalid status sets the flag, logs a warning and leaves the loop.
\<close>

fun batch_loop ::
  "int \<Rightarrow> (string \<times> json) list \<Rightarrow>
   bool \<times> field_update list \<times> (string \<times> string) list \<times> log_entry list \<Rightarrow>
   bool \<times> field_update list \<times> (string \<times> string) list \<times> log_entry list" where
  "batch_loop now [] acc = acc"
| "batch_loop now ((taskId, status) # rest) (invalidStatusFound, batchUpdateData, started, lg) =
     (if \<not> isValidTaskStatus (Some status) then
        (True, batchUpdateData, started, lg @ [LogWarn ''Invalid status found in batch update''])
      else
        batch_loop now rest
          (invalidStatusFound,
           batchUpdateData @ taskUpdateData taskId (the_status (Some status)) now,
           started @ [(taskId, the_status (Some status))],
           lg))"

text \<open>
  The propagations that were started, each with its own \<open>try / catch\<close>. They run
  concurrently in the source, whether or not the handler goes on to write and whatever
  it answers; the model runs them to completion one after the other in the order they
  were started, after the batch write (if any) was issued.
\<close>

fun run_started ::
  "('td, 'hd, 'fp) env \<Rightarrow> string \<Rightarrow> (string \<times> string) list \<Rightarrow> db \<Rightarrow> db \<times> log_entry list" where
  "run_started e ownerId [] s = (s, [])"
| "run_started e ownerId ((taskId, status) # rest) s =
     (case propagate e ''Error updating task dependencies in batch:'' taskId status ownerId s of
        (s1, lg1) \<Rightarrow> (case run_started e ownerId rest s1 of (s2, lg2) \<Rightarrow> (s2, lg1 @ lg2)))"

definition updateMultipleTasks ::
  "('td, 'hd, 'fp) env \<Rightarrow> int \<Rightarrow> request \<Rightarrow> db \<Rightarrow> response \<times> db \<times> log_entry list" where
  "updateMultipleTasks e now req s =
     (case authorised ''WP'' req of
        None \<Rightarrow> ((401, ''Unauthorized or insufficient permissions.''), s, [])
      | Some ownerId \<Rightarrow>
          (let taskUpdates = body req in
           if taskUpdates = [] then ((400, ''Invalid request body format.''), s, [])
           else
             (case batch_loop now taskUpdates (False, [], [], []) of
                (invalidStatusFound, batchUpdateData, started, lg) \<Rightarrow>
                  if invalidStatusFound then
                    (case run_started e ownerId started s of
                       (s', lg') \<Rightarrow>
                         ((400, ''Invalid status value found in batch update.''), s', lg @ lg'))
                  else
                    (case progressRef_update ownerId batchUpdateData s of
                       Inl err \<Rightarrow>
                         (case run_started e ownerId started s of
                            (s', lg') \<Rightarrow>
                              ((500, ''Failed to update tasks.''), s',
                               lg @ [LogError ''Error updating multiple tasks:''] @ lg'))
                     | Inr s1 \<Rightarrow>
                         (case run_started e ownerId started s1 of
                            (s', lg') \<Rightarrow>
                              ((200, ''Tasks updated successfully.''), s', lg @ lg'))))))"

subsection \<open>Objective update\<close>

text \<open>
  The body of the \<open>try\<close> block of \<open>updateTaskObjective\<close> up to the write: either the
  update object, or the 400 response of an early return.
\<close>

definition objectiveUpdateData ::
  "string \<Rightarrow> json option \<Rightarrow> json option \<Rightarrow> int \<Rightarrow> response + field_update list" where
  "objectiveUpdateData objectiveId state count updateTime =
     (let fromState =
        (if truthy state then
           (if state = Some (JStr ''completed'') then
              Inr [SetObjectiveComplete objectiveId True,
                   SetObjectiveTimestamp objectiveId updateTime]
            else if state = Some (JStr ''uncompleted'') then
              Inr [SetObjectiveComplete objectiveId False,
                   DeleteObjectiveTimestamp objectiveId]
            else Inl (400, ''Invalid state. Must be completed or uncompleted.''))
         else Inr [])
      in case fromState of
           Inl r \<Rightarrow> Inl r
         | Inr updateData \<Rightarrow>
             (if \<not> nullish count then
                (case count of
                   Some (JNum n) \<Rightarrow>
                     if n < 0 then Inl (400, ''Count must be a non-negative number.'')
                     else Inr (updateData @ [SetObjectiveCount objectiveId n])
                 | _ \<Rightarrow> Inl (400, ''Count must be a non-negative number.''))
              else Inr updateData))"

definition updateTaskObjective ::
  "int \<Rightarrow> request \<Rightarrow> db \<Rightarrow> response \<times> db \<times> log_entry list" where
  "updateTaskObjective now req s =
     (case authorised ''WP'' req of
        None \<Rightarrow> ((401, ''Unauthorized or insufficient permissions.''), s, [])
      | Some ownerId \<Rightarrow>
          (let objectiveId = param req;
               state = map_of (body req) ''state'';
               count = map_of (body req) ''count'' in
           if objectiveId = [] then ((400, ''Objective ID is required.''), s, [])
           else if \<not> truthy state \<and> nullish count then
             ((400, ''Either state or count must be provided.''), s, [])
           else
             (case objectiveUpdateData objectiveId state count now of
                Inl r \<Rightarrow> (r, s, [])
              | Inr updateData \<Rightarrow>
                  (case progressRef_update ownerId updateData s of
                     Inl err \<Rightarrow>
                       ((500, ''Failed to update task objective.''), s,
                        [LogError ''Error updating task objective:''])
                   | Inr s1 \<Rightarrow> ((200, ''Task objective updated successfully.''), s1, [])))))"

section \<open>Player level\<close>

text \<open>
  \<open>parseInt(text, 10)\<close>: leading white space is skipped, one sign is read, then the
  longest run of decimal digits; without a digit the result is \<open>NaN\<close>, here \<open>None\<close>.
  The result is an unbounded integer (the rounding of doubles is not modelled).
\<close>

definition isWhiteSpace :: "char \<Rightarrow> bool" where
  "isWhiteSpace c = (c \<in> set [CHR '' '', CHR 0x09, CHR 0x0A, CHR 0x0B, CHR 0x0C, CHR 0x0D])"

definition isDigit :: "char \<Rightarrow> bool" where
  "isDigit c = (c \<in> set ''0123456789'')"

definition digitValue :: "char \<Rightarrow> int" where
  "digitValue c = int (of_char c) - 48"

definition parseInt :: "string \<Rightarrow> int option" where
  "parseInt text =
     (let s1 = dropWhile isWhiteSpace text;
          neg = (case s1 of c # r \<Rightarrow> c = CHR ''-'' | [] \<Rightarrow> False);
          s2 = (case s1 of c # r \<Rightarrow> if c = CHR ''-'' \<or> c = CHR ''+'' then r else s1 | [] \<Rightarrow> []);
          ds = takeWhile isDigit s2
      in if ds = [] then None
         else Some ((if neg then - 1 else 1) * fold (\<lambda>c n. 10 * n + digitValue c) ds 0))"

definition setPlayerLevel :: "request \<Rightarrow> db \<Rightarrow> response \<times> db \<times> log_entry list" where
  "setPlayerLevel req s =
     (case authorised ''WP'' req of
        None \<Rightarrow> ((401, ''Unauthorized or insufficient permissions.''), s, [])
      | Some ownerId \<Rightarrow>
          (case parseInt (param req) of
             None \<Rightarrow> ((400, ''Invalid level value provided.''), s, [])
           | Some levelValue \<Rightarrow>
               if levelValue < 1 then ((400, ''Invalid level value provided.''), s, [])
               else
                 (case progressRef_set_level ownerId levelValue s of
                    Inl err \<Rightarrow>
                      ((500, ''Failed to update player level.''), s,
                       [LogError ''Error setting player level:''])
                  | Inr s1 \<Rightarrow> ((200, ''Level updated successfully.''), s1, []))))"

section \<open>Team progress\<close>

text \<open>\<open>[...new Set(xs)]\<close>: the elements of \<open>xs\<close> in order of first occurrence.\<close>

fun uniq_onto :: "'a list \<Rightarrow> 'a list \<Rightarrow> 'a list" where
  "uniq_onto seen [] = seen"
| "uniq_onto seen (x # xs) = uniq_onto (if x \<in> set seen then seen else seen @ [x]) xs"

definition uniq :: "'a list \<Rightarrow> 'a list" where
  "uniq xs = uniq_onto [] xs"

definition teamMemberIds :: "string \<Rightarrow> db \<Rightarrow> string list \<times> log_entry list" where
  "teamMemberIds ownerId s =
     (case (case system s ownerId of None \<Rightarrow> None | Some sd \<Rightarrow> team sd) of
        None \<Rightarrow> ([ownerId], [])
      | Some teamId \<Rightarrow>
          if teamId = [] then ([ownerId], [])
          else
            (case teams s teamId of
               None \<Rightarrow> ([ownerId], [LogWarn ''Team document not found''])
             | Some teamData \<Rightarrow>
                 (uniq ((case members teamData of None \<Rightarrow> [] | Some ms \<Rightarrow> ms) @ [ownerId]), [])))"

text \<open>
  \<open>userData?.teamHide ?? {}\<close>: the own entries of the plain object the lookups go to.
\<close>

definition hiddenTeammatesMap :: "string \<Rightarrow> db \<Rightarrow> string \<rightharpoonup> bool" where
  "hiddenTeammatesMap ownerId s =
     (case user s ownerId of
        None \<Rightarrow> Map.empty
      | Some ud \<Rightarrow> (case teamHide ud of None \<Rightarrow> Map.empty | Some m \<Rightarrow> m))"

text \<open>
  The property names every plain object inherits from \<open>Object.prototype\<close>. Their
  values are functions (for \<open>__proto__\<close>, the prototype object), all of them truthy.
\<close>

definition objectPrototypeKeys :: "string list" where
  "objectPrototypeKeys =
     [''constructor'', ''__defineGetter__'', ''__defineSetter__'', ''hasOwnProperty'',
      ''__lookupGetter__'', ''__lookupSetter__'', ''isPrototypeOf'', ''propertyIsEnumerable'',
      ''toString'', ''valueOf'', ''__proto__'', ''toLocaleString'']"

text \<open>
  The truthiness of \<open>hiddenTeammatesMap?.[id]\<close>: an own entry gives its value; without
  one the lookup falls through to the inherited properties.
\<close>

definition hiddenLookup :: "string \<Rightarrow> db \<Rightarrow> string \<Rightarrow> bool" where
  "hiddenLookup ownerId s i =
     (case hiddenTeammatesMap ownerId s i of
        Some b \<Rightarrow> b
      | None \<Rightarrow> i \<in> set objectPrototypeKeys)"

text \<open>
  The \<open>map(...).filter(p => p !== null)\<close> over the fetched progress documents: a member
  without a document is logged and left out; a throw of the formatter ends the request.
\<close>

fun formatMembers ::
  "('td, 'hd, 'fp) env \<Rightarrow> 'hd \<Rightarrow> 'td \<Rightarrow> db \<Rightarrow> string list \<Rightarrow> (string + 'fp list) \<times> log_entry list" where
  "formatMembers e hideoutData taskData s [] = (Inr [], [])"
| "formatMembers e hideoutData taskData s (memberId # rest) =
     (case progress s memberId of
        None \<Rightarrow>
          (case formatMembers e hideoutData taskData s rest of
             (r, lg) \<Rightarrow> (r, LogWarn ''Progress document not found for member'' # lg))
      | Some d \<Rightarrow>
          (case formatProgress e d memberId hideoutData taskData of
             Inl err \<Rightarrow> (Inl err, [])
           | Inr p \<Rightarrow>
               (case formatMembers e hideoutData taskData s rest of
                  (Inl err, lg) \<Rightarrow> (Inl err, lg)
                | (Inr ps, lg) \<Rightarrow> (Inr (p # ps), lg))))"

datatype 'fp team_response =
    TeamProgress (data: "'fp list") (self: string) (hiddenTeammates: "string list")
  | TeamError nat string

definition getTeamProgress ::
  "('td, 'hd, 'fp) env \<Rightarrow> request \<Rightarrow> db \<Rightarrow> 'fp team_response \<times> log_entry list" where
  "getTeamProgress e req s =
     (case authorised ''TP'' req of
        None \<Rightarrow> (TeamError 401 ''Unauthorized or insufficient permissions.'', [])
      | Some ownerId \<Rightarrow>
          if unavailable s then
            (TeamError 500 ''Failed to retrieve team progress.'',
             [LogError ''Error fetching team progress:''])
          else
          (case (getHideoutData e, getTaskData e) of
             (Inr (Some hideoutData), Inr (Some taskData)) \<Rightarrow>
               (case teamMemberIds ownerId s of
                  (memberIds, lg) \<Rightarrow>
                    (case formatMembers e hideoutData taskData s memberIds of
                       (Inl err, lg') \<Rightarrow>
                         (TeamError 500 ''Failed to retrieve team progress.'',
                          lg @ lg' @ [LogError ''Error fetching team progress:''])
                     | (Inr teamResponse, lg') \<Rightarrow>
                         (TeamProgress teamResponse ownerId
                            (filter (\<lambda>i. i \<noteq> ownerId \<and> hiddenLookup ownerId s i) memberIds),
                          lg @ lg')))
           | (Inl err, _) \<Rightarrow>
               (TeamError 500 ''Failed to retrieve team progress.'',
                [LogError ''Error fetching team progress:''])
           | (_, Inl err) \<Rightarrow>
               (TeamError 500 ''Failed to retrieve team progress.'',
                [LogError ''Error fetching team progress:''])
           | _ \<Rightarrow>
               (TeamError 500 ''Failed to load essential game data for team.'',
                [LogError ''Failed to load essential Tarkov data (tasks or hideout) for team progress''])))"

section \<open>Hideout graph\<close>

record StationLevelRequirement =
  req_station_id :: "string option"
  req_level :: int

record HideoutLevel =
  hl_id :: string
  hl_level :: int
  hl_constructionTime :: int
  hl_stationLevelRequirements :: "StationLevelRequirement list"

record HideoutStation =
  hs_id :: string
  hs_levels :: "HideoutLevel list"

text \<open>
  \<open>req_station_id\<close> is the value of \<open>requirement?.station?.id\<close>: \<open>None\<close> when the
  requirement, its station or the id is missing. A level without a requirement list has
  the empty list.
\<close>

subsection \<open>Graph helpers\<close>

record graph =
  g_nodes :: "string list"
  g_edges :: "(string \<times> string) list"

text \<open>
  Modelled from the spec: \<open>createGraph\<close>, \<open>safeAddNode\<close> and \<open>safeAddEdge\<close> of
  \<open>graphHelpers\<close>, which is not among the sources. The spec: a directed graph whose
  nodes appear at most once and whose edges are deduplicated; adding an existing node or
  edge is a no-op, not an error.
\<close>

definition createGraph :: graph where
  "createGraph = \<lparr>g_nodes = [], g_edges = []\<rparr>"

definition safeAddNode :: "graph \<Rightarrow> string \<Rightarrow> graph" where
  "safeAddNode g n = (if n \<in> set (g_nodes g) then g else g\<lparr>g_nodes := g_nodes g @ [n]\<rparr>)"

definition safeAddEdge :: "graph \<Rightarrow> string \<Rightarrow> string \<Rightarrow> graph" where
  "safeAddEdge g a b =
     (if (a, b) \<in> set (g_edges g) then g else g\<lparr>g_edges := g_edges g @ [(a, b)]\<rparr>)"

text \<open>
  Modelled from the spec: \<open>getPredecessors\<close> and \<open>getSuccessors\<close> of \<open>graphHelpers\<close>,
  not among the sources. The spec: \<open>predecessors(id)\<close>, \<open>successors(id)\<close> are the direct
  neighbours; an unknown id gives the empty result.
\<close>

definition getPredecessors :: "graph \<Rightarrow> string \<Rightarrow> string list" where
  "getPredecessors g n = map fst (filter (\<lambda>e. snd e = n) (g_edges g))"

definition getSuccessors :: "graph \<Rightarrow> string \<Rightarrow> string list" where
  "getSuccessors g n = map snd (filter (\<lambda>e. fst e = n) (g_edges g))"

text \<open>
  Modelled from the spec: \<open>getParents\<close> and \<open>getChildren\<close> of \<open>graphHelpers\<close>, not among
  the sources. The spec: \<open>ancestors(id)\<close> ("parents" in the transitive sense) and
  \<open>descendants(id)\<close> are the full transitive closure, computed by a traversal with a
  visited set. The traversal below widens the set found so far by one more layer of
  neighbours, once per node of the graph.
\<close>

definition getParents :: "graph \<Rightarrow> string \<Rightarrow> string list" where
  "getParents g n =
     fold (\<lambda>_ found. uniq (found @ concat (map (getPredecessors g) found)))
       (g_nodes g) (getPredecessors g n)"

definition getChildren :: "graph \<Rightarrow> string \<Rightarrow> string list" where
  "getChildren g n =
     fold (\<lambda>_ found. uniq (found @ concat (map (getSuccessors g) found)))
       (g_nodes g) (getSuccessors g n)"

subsection \<open>Building the graph\<close>

datatype build_warning = MissingRequiredLevel string int string

text \<open>
  "Find the required level's ID": the first station with the referenced id, in it the
  first level whose declared \<open>level\<close> number equals the required one, and that level's
  id if it is a non-empty string (\<open>requiredLevel?.id\<close>).
\<close>

definition requiredLevelId :: "HideoutStation list \<Rightarrow> StationLevelRequirement \<Rightarrow> string option" where
  "requiredLevelId stations requirement =
     (case find (\<lambda>s. Some (hs_id s) = req_station_id requirement) stations of
        None \<Rightarrow> None
      | Some requiredStation \<Rightarrow>
          (case find (\<lambda>l. hl_level l = req_level requirement) (hs_levels requiredStation) of
             None \<Rightarrow> None
           | Some requiredLevel \<Rightarrow>
               if hl_id requiredLevel \<noteq> [] then Some (hl_id requiredLevel) else None))"

text \<open>
  A requirement that passes the guard \<open>if (requirement?.station?.id)\<close>: it names a
  station by a non-empty id.
\<close>

definition declared :: "StationLevelRequirement \<Rightarrow> bool" where
  "declared requirement =
     (case req_station_id requirement of None \<Rightarrow> False | Some sid \<Rightarrow> sid \<noteq> [])"

text \<open>
  The body of the innermost \<open>forEach\<close>, guarded by \<open>if (requirement?.station?.id)\<close>;
  the second component collects the warnings.
\<close>

definition add_requirement ::
  "HideoutStation list \<Rightarrow> HideoutLevel \<Rightarrow> StationLevelRequirement \<Rightarrow>
   graph \<times> build_warning list \<Rightarrow> graph \<times> build_warning list" where
  "add_requirement stations lvl requirement acc =
     (case req_station_id requirement of
        None \<Rightarrow> acc
      | Some sid \<Rightarrow>
          if sid = [] then acc
          else
            (case requiredLevelId stations requirement of
               Some rid \<Rightarrow> (safeAddEdge (safeAddNode (fst acc) rid) rid (hl_id lvl), snd acc)
             | None \<Rightarrow>
                 (fst acc,
                  snd acc @ [MissingRequiredLevel sid (req_level requirement) (hl_id lvl)])))"

definition add_level ::
  "HideoutStation list \<Rightarrow> HideoutLevel \<Rightarrow> graph \<times> build_warning list \<Rightarrow>
   graph \<times> build_warning list" where
  "add_level stations lvl acc =
     fold (add_requirement stations lvl) (hl_stationLevelRequirements lvl)
       (safeAddNode (fst acc) (hl_id lvl), snd acc)"

definition buildHideoutGraph :: "HideoutStation list \<Rightarrow> graph \<times> build_warning list" where
  "buildHideoutGraph stations =
     fold (\<lambda>station acc. fold (add_level stations) (hs_levels station) acc)
       stations (createGraph, [])"

subsection \<open>Modules and construction time\<close>

record HideoutModule = HideoutLevel +
  stationId :: string
  predecessors :: "string list"
  successors :: "string list"
  parents :: "string list"
  children :: "string list"

definition createHideoutModules :: "HideoutStation list \<Rightarrow> graph \<Rightarrow> HideoutModule list" where
  "createHideoutModules stations g =
     concat (map (\<lambda>station.
       map (\<lambda>lvl.
         \<lparr>hl_id = hl_id lvl, hl_level = hl_level lvl,
          hl_constructionTime = hl_constructionTime lvl,
          hl_stationLevelRequirements = hl_stationLevelRequirements lvl,
          stationId = hs_id station,
          predecessors = getPredecessors g (hl_id lvl),
          successors = getSuccessors g (hl_id lvl),
          parents = getParents g (hl_id lvl),
          children = getChildren g (hl_id lvl)\<rparr>) (hs_levels station)) stations)"

definition getModuleById :: "HideoutModule list \<Rightarrow> string \<Rightarrow> HideoutModule option" where
  "getModuleById modules moduleId = find (\<lambda>m. hl_id m = moduleId) modules"

definition getTotalConstructionTime :: "HideoutModule list \<Rightarrow> string \<Rightarrow> int" where
  "getTotalConstructionTime modules moduleId =
     (case getModuleById modules moduleId of
        None \<Rightarrow> 0
      | Some m \<Rightarrow>
          fold (\<lambda>prerequisiteId totalTime.
                  case getModuleById modules prerequisiteId of
                    None \<Rightarrow> totalTime
                  | Some prerequisite \<Rightarrow> totalTime + hl_constructionTime prerequisite)
            (predecessors m) (hl_constructionTime m))"

text \<open>The modules the composable holds after a catalog has arrived.\<close>

definition hideoutModulesOf :: "HideoutStation list \<Rightarrow> HideoutModule list" where
  "hideoutModulesOf stations = createHideoutModules stations (fst (buildHideoutGraph stations))"

text \<open>
  A catalog with one station of three levels, listed from the highest down, each level
  requiring the one below it.
\<close>

definition chain_catalog :: "HideoutStation list" where
  "chain_catalog =
     [\<lparr>hs_id = ''generator'',
       hs_levels =
         [\<lparr>hl_id = ''gen3'', hl_level = 3, hl_constructionTime = 30,
           hl_stationLevelRequirements = [\<lparr>req_station_id = Some ''generator'', req_level = 2\<rparr>]\<rparr>,
          \<lparr>hl_id = ''gen2'', hl_level = 2, hl_constructionTime = 20,
           hl_stationLevelRequirements = [\<lparr>req_station_id = Some ''generator'', req_level = 1\<rparr>]\<rparr>,
          \<lparr>hl_id = ''gen1'', hl_level = 1, hl_constructionTime = 10,
           hl_stationLevelRequirements = []\<rparr>]\<rparr>]"

section \<open>Store migration\<close>

datatype GameMode = Pvp | Pve

text \<open>
  The parts of the store state that \<open>migrateDataIfNeeded\<close> looks at: the mode selector,
  the two mode objects with their \<open>level\<close> (a number, or missing), and the legacy
  top-level \<open>level\<close>. Everything else of a mode object or of the state is carried in
  \<open>up_rest\<close> and \<open>us_rest\<close>.
\<close>

record 'a UserProgressData =
  up_level :: "int option"
  up_rest :: 'a

record ('a, 'b) UserState =
  currentGameMode :: "GameMode option"
  pvp :: "'a UserProgressData option"
  pve :: "'a UserProgressData option"
  us_level :: "int option"
  us_rest :: 'b

datatype ('a, 'b) store_effect =
    ConsoleLog string
  | ConsoleError string
  | Patch "('a, 'b) UserState"
  | SetDoc string "('a, 'b) UserState"

text \<open>
  What the action uses from outside: \<open>migrateToGameModeStructure\<close>, the store's
  \<open>$patch\<close> (the state after merging the given object into it), \<open>fireuser.uid\<close>, and
  whether issuing \<open>setDoc\<close> throws.
\<close>

record ('a, 'b) store_env =
  migrateToGameModeStructure :: "('a, 'b) UserState \<Rightarrow> ('a, 'b) UserState"
  patch :: "('a, 'b) UserState \<Rightarrow> ('a, 'b) UserState \<Rightarrow> ('a, 'b) UserState"
  fireuser_uid :: "string option"
  setDoc_throws :: bool

text \<open>\<open>!this.pvp?.level\<close>: the mode object is missing, or its level is missing or 0.\<close>

definition no_level :: "'a UserProgressData option \<Rightarrow> bool" where
  "no_level p =
     (case p of
        None \<Rightarrow> True
      | Some d \<Rightarrow> (case up_level d of None \<Rightarrow> True | Some n \<Rightarrow> n = 0))"

definition needsMigration :: "('a, 'b) UserState \<Rightarrow> bool" where
  "needsMigration st =
     (currentGameMode st = None \<or> pvp st = None \<or> pve st = None \<or>
      (us_level st \<noteq> None \<and> no_level (pvp st)))"

definition migrateDataIfNeeded ::
  "('a, 'b) store_env \<Rightarrow> ('a, 'b) UserState \<Rightarrow> ('a, 'b) UserState \<times> ('a, 'b) store_effect list" where
  "migrateDataIfNeeded e st =
     (if needsMigration st then
        (let currentState = st;
             migratedData = migrateToGameModeStructure e currentState
         in (patch e st migratedData,
             [ConsoleLog ''Migrating legacy data structure to gamemode-aware structure'',
              Patch migratedData] @
             (case fireuser_uid e of
                None \<Rightarrow> []
              | Some uid \<Rightarrow>
                  if uid = [] then []
                  else if setDoc_throws e then
                    [ConsoleError ''Error saving migrated data to Firestore:'']
                  else [SetDoc uid migratedData])))
      else (st, []))"

section \<open>Example data\<close>

definition demo_doc :: ProgressDocData where
  "demo_doc =
     empty_progress\<lparr>level := Some 12, displayName := Some ''Nikita'',
       taskCompletions :=
         [''task1'' \<mapsto> \<lparr>tc_complete = Some True, tc_failed = Some True, tc_timestamp = Some 1000\<rparr>]\<rparr>"

definition demo_db :: db where
  "demo_db =
     \<lparr>progress = [''u1'' \<mapsto> demo_doc, ''u2'' \<mapsto> empty_progress],
      system = [''u1'' \<mapsto> \<lparr>team = Some ''team1''\<rparr>, ''u2'' \<mapsto> \<lparr>team = Some ''team1''\<rparr>],
      user = [''u1'' \<mapsto> \<lparr>teamHide = Some [''u2'' \<mapsto> True, ''u1'' \<mapsto> True]\<rparr>],
      teams = [''team1'' \<mapsto> \<lparr>members = Some [''u1'', ''u2'', ''u3'']\<rparr>],
      unavailable = False\<rparr>"

definition demo_request :: "string \<Rightarrow> string \<Rightarrow> (string \<times> json) list \<Rightarrow> request" where
  "demo_request ownerId p b =
     \<lparr>apiToken = Some \<lparr>owner = ownerId, permissions = [''GP'', ''TP'', ''WP'']\<rparr>,
      param = p, body = b\<rparr>"

text \<open>A catalog loader that throws, and a propagation that throws after the catalog loaded.\<close>

definition env_catalog_throws :: "(unit, unit, string) env" where
  "env_catalog_throws =
     \<lparr>getTaskData = Inl ''catalog unavailable'', getHideoutData = Inr (Some ()),
      updateTaskState = (\<lambda>taskId state userId taskData s. (None, s)),
      formatProgress = (\<lambda>d userId hideoutData taskData. Inr userId)\<rparr>"

definition env_propagation_throws :: "(unit, unit, string) env" where
  "env_propagation_throws =
     \<lparr>getTaskData = Inr (Some ()), getHideoutData = Inr (Some ()),
      updateTaskState = (\<lambda>taskId state userId taskData s. (Some ''dependency lookup failed'', s)),
      formatProgress = (\<lambda>d userId hideoutData taskData. Inr userId)\<rparr>"

text \<open>Collaborators that load and return normally; the formatter returns the member id.\<close>

definition env_plain :: "(unit, unit, string) env" where
  "env_plain =
     \<lparr>getTaskData = Inr (Some ()), getHideoutData = Inr (Some ()),
      updateTaskState = (\<lambda>taskId state userId taskData s. (None, s)),
      formatProgress = (\<lambda>d userId hideoutData taskData. Inr userId)\<rparr>"

text \<open>
  A catalog whose first level has two requirements that cannot be resolved (a level
  number and a station that do not exist), one that names no station, and one that
  resolves.
\<close>

definition broken_catalog :: "HideoutStation list" where
  "broken_catalog =
     [\<lparr>hs_id = ''vents'',
       hs_levels =
         [\<lparr>hl_id = ''vents1'', hl_level = 1, hl_constructionTime = 5,
           hl_stationLevelRequirements =
             [\<lparr>req_station_id = Some ''generator'', req_level = 5\<rparr>,
              \<lparr>req_station_id = Some ''lavatory'', req_level = 1\<rparr>,
              \<lparr>req_station_id = None, req_level = 1\<rparr>,
              \<lparr>req_station_id = Some ''generator'', req_level = 1\<rparr>]\<rparr>]\<rparr>,
      \<lparr>hs_id = ''generator'',
       hs_levels =
         [\<lparr>hl_id = ''gen1'', hl_level = 1, hl_constructionTime = 10,
           hl_stationLevelRequirements = []\<rparr>]\<rparr>]"

text \<open>
  A store state as a migration of the legacy record \<open>{level: 10, ...}\<close> leaves it: the
  legacy level is still there, next to the two mode objects.
\<close>

definition migrated_state :: "(unit, unit) UserState" where
  "migrated_state =
     \<lparr>currentGameMode = Some Pvp,
      pvp = Some \<lparr>up_level = Some 10, up_rest = ()\<rparr>,
      pve = Some \<lparr>up_level = Some 1, up_rest = ()\<rparr>,
      us_level = Some 10, us_rest = ()\<rparr>"

definition demo_store_env :: "(unit, unit) store_env" where
  "demo_store_env =
     \<lparr>migrateToGameModeStructure = (\<lambda>st. st\<lparr>currentGameMode := Some Pvp\<rparr>),
      patch = (\<lambda>st m. m), fireuser_uid = Some ''u1'', setDoc_throws = False\<rparr>"

text \<open>
  The state \<open>migrated_state\<close> with a pvp level of 0: mode selector, both mode objects
  and the legacy level are all there.
\<close>

definition zero_level_state :: "(unit, unit) UserState" where
  "zero_level_state =
     \<lparr>currentGameMode = Some Pvp,
      pvp = Some \<lparr>up_level = Some 0, up_rest = ()\<rparr>,
      pve = Some \<lparr>up_level = Some 1, up_rest = ()\<rparr>,
      us_level = Some 10, us_rest = ()\<rparr>"

text \<open>
  A team of two. The requester \<open>u1\<close> has no user document, hence no \<open>teamHide\<close> map;
  the id of the other member is the name of an inherited object property.
\<close>

definition prototype_db :: db where
  "prototype_db =
     \<lparr>progress = [''u1'' \<mapsto> empty_progress, ''constructor'' \<mapsto> empty_progress],
      system = [''u1'' \<mapsto> \<lparr>team = Some ''team1''\<rparr>],
      user = Map.empty,
      teams = [''team1'' \<mapsto> \<lparr>members = Some [''u1'', ''constructor'']\<rparr>],
      unavailable = False\<rparr>"

subsection \<open>Vocabulary of the graph proofs\<close>

text \<open>The edges and the warnings that one level contributes to the graph.\<close>

definition level_edges :: "HideoutStation list \<Rightarrow> HideoutLevel \<Rightarrow> (string \<times> string) set" where
  "level_edges cat lvl =
     {(rid, hl_id lvl) | rid req. req \<in> set (hl_stationLevelRequirements lvl) \<and> declared req
        \<and> requiredLevelId cat req = Some rid}"

definition level_warnings :: "HideoutStation list \<Rightarrow> HideoutLevel \<Rightarrow> build_warning set" where
  "level_warnings cat lvl =
     {MissingRequiredLevel sid (req_level req) (hl_id lvl) | sid req.
        req \<in> set (hl_stationLevelRequirements lvl) \<and> req_station_id req = Some sid
        \<and> sid \<noteq> [] \<and> requiredLevelId cat req = None}"

section \<open>Properties of the task handlers\<close>

lemma task_record_written:
  "state = ''uncompleted'' \<or> state = ''completed'' \<or> state = ''failed'' \<Longrightarrow>
   taskCompletions (apply_update (taskUpdateData t state now) d) =
     (taskCompletions d)(t \<mapsto>
        \<lparr>tc_complete = Some (state \<noteq> ''uncompleted''), tc_failed = Some (state = ''failed''),
         tc_timestamp = (if state = ''uncompleted'' then None else Some now)\<rparr>)"
  by (auto simp add: apply_update_def taskUpdateData_def task_of_def empty_task_def fun_eq_iff
      split: option.splits)

lemma apply_update_append:
  "apply_update (xs @ ys) d = apply_update ys (apply_update xs d)"
  by (simp add: apply_update_def)

lemma valid_status_cases:
  "isValidTaskStatus (Some v) \<Longrightarrow>
     the_status (Some v) = ''uncompleted'' \<or> the_status (Some v) = ''completed''
       \<or> the_status (Some v) = ''failed''"
  by (auto simp: isValidTaskStatus_def the_status_def split: json.splits)

lemma demo_authorised: "authorised ''WP'' (demo_request ''u1'' p b) = Some ''u1''"
  by (simp add: authorised_def demo_request_def)

lemma demo_progress: "progress demo_db ''u1'' = Some demo_doc"
  by (simp add: demo_db_def)

lemma demo_available: "\<not> unavailable demo_db"
  by (simp add: demo_db_def)

lemma task_doc_written:
  "state = ''uncompleted'' \<or> state = ''completed'' \<or> state = ''failed'' \<Longrightarrow>
   apply_update (taskUpdateData t state now) d =
     d\<lparr>taskCompletions := (taskCompletions d)(t \<mapsto>
        \<lparr>tc_complete = Some (state \<noteq> ''uncompleted''), tc_failed = Some (state = ''failed''),
         tc_timestamp = (if state = ''uncompleted'' then None else Some now)\<rparr>)\<rparr>"
  by (auto simp add: apply_update_def taskUpdateData_def task_of_def empty_task_def fun_eq_iff
      split: option.splits)

lemma updateSingleTask_valid:
  assumes "authorised ''WP'' req = Some ownerId"
    and "param req \<noteq> []"
    and "map_of (body req) ''state'' = Some (JStr st)"
    and "st = ''uncompleted'' \<or> st = ''completed'' \<or> st = ''failed''"
    and "\<not> unavailable s"
    and "progress s ownerId = Some d"
  shows "updateSingleTask e now req s =
     ((200, ''Task updated successfully.''),
      propagate e ''Error updating task dependencies:'' (param req) st ownerId
        (s\<lparr>progress := (progress s)(ownerId \<mapsto>
            d\<lparr>taskCompletions := (taskCompletions d)(param req \<mapsto>
               \<lparr>tc_complete = Some (st \<noteq> ''uncompleted''), tc_failed = Some (st = ''failed''),
                tc_timestamp = (if st = ''uncompleted'' then None else Some now)\<rparr>)\<rparr>)\<rparr>))"
proof -
  have v: "isValidTaskStatus (Some (JStr st))" "the_status (Some (JStr st)) = st"
    using assms(4) by (auto simp: isValidTaskStatus_def the_status_def)
  show ?thesis
    using assms(1,2,3,5,6) v
    by (simp add: updateSingleTask_def Let_def progressRef_update_def
        task_doc_written[OF assms(4)] split: prod.splits)
qed

text \<open>
  C4. An authorised single-task update with a task id, on a store within reach that holds
  the owner's progress document, is answered with 200, and whatever the document held
  for the task before (a failed task included), the handler writes the task's record
  anew before the propagation runs: for \<open>uncompleted\<close>, \<open>complete\<close> and \<open>failed\<close> are
  false and the timestamp field is absent; for \<open>completed\<close> and \<open>failed\<close> the timestamp
  is the current time. Every other record and field of the store is left as it was.
\<close>

theorem updateSingleTask_writes_record:
  assumes "authorised ''WP'' req = Some ownerId"
    and "param req \<noteq> []"
    and "map_of (body req) ''state'' = Some (JStr st)"
    and "\<not> unavailable s"
    and "progress s ownerId = Some d"
  shows "(st = ''uncompleted'' \<longrightarrow>
           updateSingleTask e now req s =
             ((200, ''Task updated successfully.''),
              propagate e ''Error updating task dependencies:'' (param req) st ownerId
                (s\<lparr>progress := (progress s)(ownerId \<mapsto>
                    d\<lparr>taskCompletions := (taskCompletions d)(param req \<mapsto>
                       \<lparr>tc_complete = Some False, tc_failed = Some False,
                        tc_timestamp = None\<rparr>)\<rparr>)\<rparr>)))
       \<and> (st = ''completed'' \<longrightarrow>
           updateSingleTask e now req s =
             ((200, ''Task updated successfully.''),
              propagate e ''Error updating task dependencies:'' (param req) st ownerId
                (s\<lparr>progress := (progress s)(ownerId \<mapsto>
                    d\<lparr>taskCompletions := (taskCompletions d)(param req \<mapsto>
                       \<lparr>tc_complete = Some True, tc_failed = Some False,
                        tc_timestamp = Some now\<rparr>)\<rparr>)\<rparr>)))
       \<and> (st = ''failed'' \<longrightarrow>
           updateSingleTask e now req s =
             ((200, ''Task updated successfully.''),
              propagate e ''Error updating task dependencies:'' (param req) st ownerId
                (s\<lparr>progress := (progress s)(ownerId \<mapsto>
                    d\<lparr>taskCompletions := (taskCompletions d)(param req \<mapsto>
                       \<lparr>tc_complete = Some True, tc_failed = Some True,
                        tc_timestamp = Some now\<rparr>)\<rparr>)\<rparr>)))"
proof (intro conjI impI)
  assume st: "st = ''uncompleted''"
  then have "st = ''uncompleted'' \<or> st = ''completed'' \<or> st = ''failed''" by simp
  from updateSingleTask_valid[OF assms(1,2,3) this assms(4,5), of e now] st
  show "updateSingleTask e now req s =
             ((200, ''Task updated successfully.''),
              propagate e ''Error updating task dependencies:'' (param req) st ownerId
                (s\<lparr>progress := (progress s)(ownerId \<mapsto>
                    d\<lparr>taskCompletions := (taskCompletions d)(param req \<mapsto>
                       \<lparr>tc_complete = Some False, tc_failed = Some False,
                        tc_timestamp = None\<rparr>)\<rparr>)\<rparr>))" by simp
next
  assume st: "st = ''completed''"
  then have "st = ''uncompleted'' \<or> st = ''completed'' \<or> st = ''failed''" by simp
  from updateSingleTask_valid[OF assms(1,2,3) this assms(4,5), of e now] st
  show "updateSingleTask e now req s =
             ((200, ''Task updated successfully.''),
              propagate e ''Error updating task dependencies:'' (param req) st ownerId
                (s\<lparr>progress := (progress s)(ownerId \<mapsto>
                    d\<lparr>taskCompletions := (taskCompletions d)(param req \<mapsto>
                       \<lparr>tc_complete = Some True, tc_failed = Some False,
                        tc_timestamp = Some now\<rparr>)\<rparr>)\<rparr>))" by simp
next
  assume st: "st = ''failed''"
  then have "st = ''uncompleted'' \<or> st = ''completed'' \<or> st = ''failed''" by simp
  from updateSingleTask_valid[OF assms(1,2,3) this assms(4,5), of e now] st
  show "updateSingleTask e now req s =
             ((200, ''Task updated successfully.''),
              propagate e ''Error updating task dependencies:'' (param req) st ownerId
                (s\<lparr>progress := (progress s)(ownerId \<mapsto>
                    d\<lparr>taskCompletions := (taskCompletions d)(param req \<mapsto>
                       \<lparr>tc_complete = Some True, tc_failed = Some True,
                        tc_timestamp = Some now\<rparr>)\<rparr>)\<rparr>))" by simp
qed

text \<open>
  In the example store \<open>task1\<close> is failed; setting it to \<open>uncompleted\<close> (with a
  propagation that changes nothing) leaves it neither complete nor failed and without a
  timestamp.
\<close>

theorem updateSingleTask_writes_record_witness:
  "taskCompletions demo_doc ''task1''
     = Some \<lparr>tc_complete = Some True, tc_failed = Some True, tc_timestamp = Some 1000\<rparr>
   \<and> updateSingleTask env_plain 2000
        (demo_request ''u1'' ''task1'' [(''state'', JStr ''uncompleted'')]) demo_db
     = ((200, ''Task updated successfully.''),
        demo_db\<lparr>progress := (progress demo_db)(''u1'' \<mapsto>
           demo_doc\<lparr>taskCompletions := (taskCompletions demo_doc)(''task1'' \<mapsto>
              \<lparr>tc_complete = Some False, tc_failed = Some False, tc_timestamp = None\<rparr>)\<rparr>)\<rparr>,
        [])"
proof -
  let ?req = "demo_request ''u1'' ''task1'' [(''state'', JStr ''uncompleted'')]"
  have before: "taskCompletions demo_doc ''task1''
     = Some \<lparr>tc_complete = Some True, tc_failed = Some True, tc_timestamp = Some 1000\<rparr>"
    by (simp add: demo_doc_def)
  have p: "param ?req \<noteq> []" "param ?req = ''task1''" by (simp_all add: demo_request_def)
  have b: "map_of (body ?req) ''state'' = Some (JStr ''uncompleted'')"
    by (simp add: demo_request_def)
  have q: "\<And>s. propagate env_plain ''Error updating task dependencies:'' ''task1''
             ''uncompleted'' ''u1'' s = (s, [])"
    by (simp add: propagate_def env_plain_def)
  from updateSingleTask_writes_record [OF demo_authorised p(1) b demo_available demo_progress, of env_plain 2000]
  have "updateSingleTask env_plain 2000 ?req demo_db =
             ((200, ''Task updated successfully.''),
              propagate env_plain ''Error updating task dependencies:'' (param ?req)
                ''uncompleted'' ''u1''
                (demo_db\<lparr>progress := (progress demo_db)(''u1'' \<mapsto>
                    demo_doc\<lparr>taskCompletions := (taskCompletions demo_doc)(param ?req \<mapsto>
                       \<lparr>tc_complete = Some False, tc_failed = Some False,
                        tc_timestamp = None\<rparr>)\<rparr>)\<rparr>))"
    by blast
  then show ?thesis using before by (simp add: p(2) q)
qed

text \<open>
  C6. For an authorised single-task update with a task id and a valid state whose primary
  write has gone through (leaving the store \<open>s1\<close>), the response is 200 whatever the
  catalog load and the propagation do. If the catalog load throws, the store stays
  \<open>s1\<close>; if the propagation throws, the store is the one the propagation left; in both
  cases the error is logged and nothing is undone.
\<close>

theorem updateSingleTask_survives_propagation_failure:
  assumes "authorised ''WP'' req = Some ownerId"
    and "param req \<noteq> []"
    and "map_of (body req) ''state'' = Some (JStr st)"
    and "st = ''uncompleted'' \<or> st = ''completed'' \<or> st = ''failed''"
    and "progressRef_update ownerId (taskUpdateData (param req) st now) s = Inr s1"
  shows "fst (updateSingleTask e now req s) = (200, ''Task updated successfully.'')
    \<and> (\<forall>err. getTaskData e = Inl err \<longrightarrow>
           updateSingleTask e now req s =
             ((200, ''Task updated successfully.''), s1,
              [LogError ''Error updating task dependencies:'']))
    \<and> (\<forall>td err s2. getTaskData e = Inr td
           \<and> updateTaskState e (param req) st ownerId td s1 = (Some err, s2) \<longrightarrow>
           updateSingleTask e now req s =
             ((200, ''Task updated successfully.''), s2,
              [LogError ''Error updating task dependencies:'']))"
  using assms
  by (auto simp: updateSingleTask_def isValidTaskStatus_def the_status_def propagate_def
      split: sum.splits prod.splits option.splits)

theorem updateSingleTask_survives_propagation_failure_witness:
  "updateSingleTask env_catalog_throws 2000
       (demo_request ''u1'' ''task1'' [(''state'', JStr ''completed'')]) demo_db
     = ((200, ''Task updated successfully.''),
        demo_db\<lparr>progress := (progress demo_db)(''u1'' \<mapsto>
           apply_update (taskUpdateData ''task1'' ''completed'' 2000) demo_doc)\<rparr>,
        [LogError ''Error updating task dependencies:''])
   \<and> updateSingleTask env_propagation_throws 2000
       (demo_request ''u1'' ''task1'' [(''state'', JStr ''completed'')]) demo_db
     = ((200, ''Task updated successfully.''),
        demo_db\<lparr>progress := (progress demo_db)(''u1'' \<mapsto>
           apply_update (taskUpdateData ''task1'' ''completed'' 2000) demo_doc)\<rparr>,
        [LogError ''Error updating task dependencies:''])"
proof -
  let ?req = "demo_request ''u1'' ''task1'' [(''state'', JStr ''completed'')]"
  let ?s1 = "demo_db\<lparr>progress := (progress demo_db)(''u1'' \<mapsto>
           apply_update (taskUpdateData ''task1'' ''completed'' 2000) demo_doc)\<rparr>"
  have p: "param ?req \<noteq> []" by (simp add: demo_request_def)
  have b: "map_of (body ?req) ''state'' = Some (JStr ''completed'')"
    by (simp add: demo_request_def)
  have v: "''completed'' = ''uncompleted'' \<or> ''completed'' = ''completed''
             \<or> ''completed'' = ''failed''" by simp
  have w: "progressRef_update ''u1'' (taskUpdateData (param ?req) ''completed'' 2000) demo_db
             = Inr ?s1"
    by (simp add: progressRef_update_def demo_progress demo_available demo_request_def)
  have c: "getTaskData env_catalog_throws = Inl ''catalog unavailable''"
    by (simp add: env_catalog_throws_def)
  have t: "getTaskData env_propagation_throws = Inr (Some ())
        \<and> updateTaskState env_propagation_throws (param ?req) ''completed'' ''u1'' (Some ()) ?s1
            = (Some ''dependency lookup failed'', ?s1)"
    by (simp add: env_propagation_throws_def)
  show ?thesis
    using c t
      updateSingleTask_survives_propagation_failure
        [OF demo_authorised p b v w, of env_catalog_throws]
      updateSingleTask_survives_propagation_failure
        [OF demo_authorised p b v w, of env_propagation_throws]
    by blast
qed

text \<open>
  C8. An authorised objective update whose body has no usable \<open>state\<close> (missing, or
  falsy) and no \<open>count\<close> (missing or \<open>null\<close>) is answered with status 400 and leaves
  the store as it was; with an objective id in the path the error is "Either state or
  count must be provided."
\<close>

theorem updateTaskObjective_empty_update:
  assumes "authorised ''WP'' req = Some ownerId"
    and "\<not> truthy (map_of (body req) ''state'')"
    and "nullish (map_of (body req) ''count'')"
  shows "fst (fst (updateTaskObjective now req s)) = 400
    \<and> fst (snd (updateTaskObjective now req s)) = s
    \<and> (param req \<noteq> [] \<longrightarrow>
         updateTaskObjective now req s =
           ((400, ''Either state or count must be provided.''), s, []))"
  using assms by (simp add: updateTaskObjective_def Let_def)

theorem updateTaskObjective_empty_update_witness:
  "updateTaskObjective 2000 (demo_request ''u1'' ''objective1'' []) demo_db
     = ((400, ''Either state or count must be provided.''), demo_db, [])"
proof -
  let ?req = "demo_request ''u1'' ''objective1'' []"
  have s: "\<not> truthy (map_of (body ?req) ''state'')" by (simp add: demo_request_def)
  have c: "nullish (map_of (body ?req) ''count'')" by (simp add: demo_request_def)
  have p: "param ?req \<noteq> []" by (simp add: demo_request_def)
  show ?thesis
    using p updateTaskObjective_empty_update [OF demo_authorised s c, of 2000 demo_db] by blast
qed

text \<open>
  C9. For an authorised level update on a store within reach: the answer is 400 with the
  store untouched exactly
  when \<open>parseInt\<close> of the path value is \<open>NaN\<close> or below 1; otherwise the answer is 200
  and the store differs from the old one only in the \<open>level\<close> field of the owner's
  progress document (created empty when it did not exist).
\<close>

theorem setPlayerLevel_validates_and_merges:
  assumes "authorised ''WP'' req = Some ownerId" and "\<not> unavailable s"
  shows "((parseInt (param req) = None \<or> (\<exists>n. parseInt (param req) = Some n \<and> n < 1)) \<longrightarrow>
           setPlayerLevel req s = ((400, ''Invalid level value provided.''), s, []))
       \<and> (\<forall>n. parseInt (param req) = Some n \<and> 1 \<le> n \<longrightarrow>
           setPlayerLevel req s =
             ((200, ''Level updated successfully.''),
              s\<lparr>progress := (progress s)(ownerId \<mapsto>
                   (case progress s ownerId of None \<Rightarrow> empty_progress | Some d \<Rightarrow> d)
                     \<lparr>level := Some n\<rparr>)\<rparr>,
              []))
       \<and> (fst (fst (setPlayerLevel req s)) = 400 \<longleftrightarrow>
            (parseInt (param req) = None \<or> (\<exists>n. parseInt (param req) = Some n \<and> n < 1)))"
  using assms
  by (auto simp add: setPlayerLevel_def progressRef_set_level_def Let_def
      split: option.splits if_splits)

lemma parseInt_examples:
  "parseInt ''0'' = Some 0" "parseInt ''abc'' = None" "parseInt ''45'' = Some 45"
  by (simp_all add: parseInt_def isWhiteSpace_def isDigit_def digitValue_def)

theorem setPlayerLevel_validates_and_merges_witness:
  "setPlayerLevel (demo_request ''u1'' ''0'' []) demo_db
     = ((400, ''Invalid level value provided.''), demo_db, [])
   \<and> setPlayerLevel (demo_request ''u1'' ''abc'' []) demo_db
     = ((400, ''Invalid level value provided.''), demo_db, [])
   \<and> setPlayerLevel (demo_request ''u1'' ''45'' []) demo_db
     = ((200, ''Level updated successfully.''),
        demo_db\<lparr>progress := (progress demo_db)(''u1'' \<mapsto> demo_doc\<lparr>level := Some 45\<rparr>)\<rparr>, [])"
proof -
  have p: "\<And>v. param (demo_request ''u1'' v []) = v" by (simp add: demo_request_def)
  show ?thesis
    using setPlayerLevel_validates_and_merges [OF demo_authorised demo_available, of "''0''" "[]"]
      setPlayerLevel_validates_and_merges [OF demo_authorised demo_available, of "''abc''" "[]"]
      setPlayerLevel_validates_and_merges [OF demo_authorised demo_available, of "''45''" "[]"]
    by (simp add: p parseInt_examples demo_progress)
qed


subsection \<open>Batches\<close>

lemma batch_loop_valid:
  "\<forall>(t, v) \<in> set entries. isValidTaskStatus (Some v) \<Longrightarrow>
   batch_loop now entries (flag, dat, started, lg) =
     (flag, dat @ concat (map (\<lambda>(t, v). taskUpdateData t (the_status (Some v)) now) entries),
      started @ map (\<lambda>(t, v). (t, the_status (Some v))) entries, lg)"
  by (induction entries arbitrary: dat started) auto

lemma batch_loop_invalid:
  "\<exists>(t, v) \<in> set entries. \<not> isValidTaskStatus (Some v) \<Longrightarrow>
   batch_loop now entries (flag, dat, started, lg) =
     (True,
      dat @ concat (map (\<lambda>(t, v). taskUpdateData t (the_status (Some v)) now)
                     (takeWhile (\<lambda>(t, v). isValidTaskStatus (Some v)) entries)),
      started @ map (\<lambda>(t, v). (t, the_status (Some v)))
                     (takeWhile (\<lambda>(t, v). isValidTaskStatus (Some v)) entries),
      lg @ [LogWarn ''Invalid status found in batch update''])"
proof (induction entries arbitrary: dat started)
  case Nil
  then show ?case by simp
next
  case (Cons x entries)
  obtain t v where x: "x = (t, v)" by (cases x)
  show ?case
  proof (cases "isValidTaskStatus (Some v)")
    case True
    with Cons.prems x have "\<exists>(t, v) \<in> set entries. \<not> isValidTaskStatus (Some v)" by auto
    from Cons.IH[OF this] True show ?thesis by (simp add: x)
  next
    case False
    then show ?thesis by (simp add: x)
  qed
qed

text \<open>
  A batch with an invalid entry is answered with 400 and its update object is never
  written: the store returned is the one left by the propagations of the entries that
  precede the first invalid one, run on the store as it was.
\<close>

lemma rejected_batch_store:
  assumes "authorised ''WP'' req = Some ownerId"
    and "\<exists>(t, v) \<in> set (body req). \<not> isValidTaskStatus (Some v)"
  shows "fst (updateMultipleTasks e now req s)
           = (400, ''Invalid status value found in batch update.'')
     \<and> fst (snd (updateMultipleTasks e now req s)) =
         fst (run_started e ownerId
               (map (\<lambda>(t, v). (t, the_status (Some v)))
                  (takeWhile (\<lambda>(t, v). isValidTaskStatus (Some v)) (body req))) s)"
proof -
  from assms(2) have ne: "body req \<noteq> []" by auto
  show ?thesis
    using assms(1) ne
    by (simp add: updateMultipleTasks_def batch_loop_invalid[OF assms(2)] split: prod.splits)
qed

text \<open>
  C1. The batch \<open>{task1: "completed", task5: "bogus"}\<close> is answered with 400 and the
  batch write is skipped, but the propagation for \<open>task1\<close> was started inside the
  validation loop, before \<open>task5\<close> was looked at: the store the request leaves is the
  one \<open>updateTaskState\<close> produced for \<open>task1\<close> being completed, and a throw there is
  logged as an error.
\<close>

theorem updateMultipleTasks_rejected_batch_propagates:
  "updateMultipleTasks (e\<lparr>getTaskData := Inr td\<rparr>) now
     \<lparr>apiToken = Some \<lparr>owner = ''u1'', permissions = [''WP'']\<rparr>, param = [],
      body = [(''task1'', JStr ''completed''), (''task5'', JStr ''bogus'')]\<rparr> s
   = ((400, ''Invalid status value found in batch update.''),
      snd (updateTaskState e ''task1'' ''completed'' ''u1'' td s),
      LogWarn ''Invalid status found in batch update'' #
      (if fst (updateTaskState e ''task1'' ''completed'' ''u1'' td s) = None then []
       else [LogError ''Error updating task dependencies in batch:'']))"
  by (auto simp: updateMultipleTasks_def authorised_def isValidTaskStatus_def the_status_def
       propagate_def split: prod.splits option.splits)

lemma batch_untouched:
  "\<forall>(t, v) \<in> set entries. isValidTaskStatus (Some v) \<Longrightarrow> t \<notin> fst ` set entries \<Longrightarrow>
   taskCompletions
     (apply_update (concat (map (\<lambda>(t, v). taskUpdateData t (the_status (Some v)) now) entries)) d) t
     = taskCompletions d t"
proof (induction entries arbitrary: d)
  case Nil
  then show ?case by (simp add: apply_update_def)
next
  case (Cons x entries)
  obtain t' v' where x: "x = (t', v')" by (cases x)
  from Cons.prems x have v: "isValidTaskStatus (Some v')" and ne: "t' \<noteq> t" by auto
  from Cons.prems have rest: "\<forall>(t, v) \<in> set entries. isValidTaskStatus (Some v)"
    "t \<notin> fst ` set entries" by auto
  show ?case
    using Cons.IH[OF rest] ne task_record_written[OF valid_status_cases[OF v]]
    by (simp add: x apply_update_append)
qed

lemma batch_record:
  "\<forall>(t, v) \<in> set entries. isValidTaskStatus (Some v) \<Longrightarrow> distinct (map fst entries) \<Longrightarrow>
   (t, JStr st) \<in> set entries \<Longrightarrow>
   taskCompletions
     (apply_update (concat (map (\<lambda>(t, v). taskUpdateData t (the_status (Some v)) now) entries)) d) t
     = Some \<lparr>tc_complete = Some (st \<noteq> ''uncompleted''), tc_failed = Some (st = ''failed''),
         tc_timestamp = (if st = ''uncompleted'' then None else Some now)\<rparr>"
proof (induction entries arbitrary: d)
  case Nil
  then show ?case by simp
next
  case (Cons x entries)
  obtain t' v' where x: "x = (t', v')" by (cases x)
  from Cons.prems x have v: "isValidTaskStatus (Some v')" by auto
  from Cons.prems have rest: "\<forall>(t, v) \<in> set entries. isValidTaskStatus (Some v)"
    "distinct (map fst entries)" by auto
  show ?case
  proof (cases "(t, JStr st) \<in> set entries")
    case True
    then show ?thesis using Cons.IH[OF rest True] by (simp add: x apply_update_append)
  next
    case False
    with Cons.prems x have eq: "t' = t" "v' = JStr st" by auto
    from Cons.prems x eq have notin: "t \<notin> fst ` set entries" by auto
    have "the_status (Some v') = st" by (simp add: eq the_status_def)
    then show ?thesis
      using batch_untouched[OF rest(1) notin] task_record_written[OF valid_status_cases[OF v]]
      by (simp add: x eq apply_update_append)
  qed
qed

lemma updateMultipleTasks_valid:
  assumes "authorised ''WP'' req = Some ownerId"
    and "body req \<noteq> []"
    and "\<forall>(k, v) \<in> set (body req). isValidTaskStatus (Some v)"
    and "\<not> unavailable s"
    and "progress s ownerId = Some d"
  shows "updateMultipleTasks e now req s =
     ((200, ''Tasks updated successfully.''),
      run_started e ownerId (map (\<lambda>(t, v). (t, the_status (Some v))) (body req))
        (s\<lparr>progress := (progress s)(ownerId \<mapsto>
            apply_update
              (concat (map (\<lambda>(t, v). taskUpdateData t (the_status (Some v)) now) (body req)))
              d)\<rparr>))"
  using assms(1,2,4,5)
  by (simp add: updateMultipleTasks_def Let_def batch_loop_valid[OF assms(3)]
      progressRef_update_def split: prod.splits)

lemma run_started_plain: "run_started env_plain ownerId started s = (s, [])"
  by (induction started arbitrary: s) (auto simp: propagate_def env_plain_def)

text \<open>
  C10. The update object for \<open>failed\<close> sets \<open>complete\<close> to true as well as \<open>failed\<close>, and
  differs from the one for \<open>completed\<close> in the value of \<open>failed\<close> only. On a store within
  reach that holds the owner's progress document, the single-task handler given
  \<open>completed\<close> or \<open>failed\<close>, and the batch handler given a batch of valid entries (the
  keys of a JSON object are distinct) that sets task \<open>t\<close> to \<open>completed\<close> or \<open>failed\<close>,
  answer 200 and write the task's record before the propagations run: \<open>complete\<close> is
  true and the timestamp is the current time in both cases, and \<open>failed\<close> is true exactly
  for the state \<open>failed\<close>.
\<close>

theorem failed_task_stored_complete:
  "taskUpdateData t ''failed'' now =
      [SetTaskComplete t True, SetTaskFailed t True, SetTaskTimestamp t now]
   \<and> taskUpdateData t ''completed'' now =
      [SetTaskComplete t True, SetTaskFailed t False, SetTaskTimestamp t now]
   \<and> (authorised ''WP'' req = Some ownerId \<and> param req \<noteq> []
        \<and> map_of (body req) ''state'' = Some (JStr st)
        \<and> (st = ''completed'' \<or> st = ''failed'')
        \<and> \<not> unavailable s \<and> progress s ownerId = Some d \<longrightarrow>
        updateSingleTask e now req s =
          ((200, ''Task updated successfully.''),
           propagate e ''Error updating task dependencies:'' (param req) st ownerId
             (s\<lparr>progress := (progress s)(ownerId \<mapsto>
                 d\<lparr>taskCompletions := (taskCompletions d)(param req \<mapsto>
                    \<lparr>tc_complete = Some True, tc_failed = Some (st = ''failed''),
                     tc_timestamp = Some now\<rparr>)\<rparr>)\<rparr>)))
   \<and> (authorised ''WP'' req = Some ownerId
        \<and> (\<forall>(k, v) \<in> set (body req). isValidTaskStatus (Some v))
        \<and> distinct (map fst (body req)) \<and> (t, JStr st) \<in> set (body req)
        \<and> (st = ''completed'' \<or> st = ''failed'')
        \<and> \<not> unavailable s \<and> progress s ownerId = Some d \<longrightarrow>
        (\<exists>d1. taskCompletions d1 t
                 = Some \<lparr>tc_complete = Some True, tc_failed = Some (st = ''failed''),
                         tc_timestamp = Some now\<rparr>
           \<and> updateMultipleTasks e now req s =
               ((200, ''Tasks updated successfully.''),
                run_started e ownerId (map (\<lambda>(t, v). (t, the_status (Some v))) (body req))
                  (s\<lparr>progress := (progress s)(ownerId \<mapsto> d1)\<rparr>))))"
proof (intro conjI impI)
  show "taskUpdateData t ''failed'' now =
      [SetTaskComplete t True, SetTaskFailed t True, SetTaskTimestamp t now]"
    by (simp add: taskUpdateData_def)
  show "taskUpdateData t ''completed'' now =
      [SetTaskComplete t True, SetTaskFailed t False, SetTaskTimestamp t now]"
    by (simp add: taskUpdateData_def)
next
  assume a: "authorised ''WP'' req = Some ownerId \<and> param req \<noteq> []
        \<and> map_of (body req) ''state'' = Some (JStr st)
        \<and> (st = ''completed'' \<or> st = ''failed'')
        \<and> \<not> unavailable s \<and> progress s ownerId = Some d"
  then have v: "st = ''uncompleted'' \<or> st = ''completed'' \<or> st = ''failed''"
    and nu: "st \<noteq> ''uncompleted''" by auto
  from a nu updateSingleTask_valid[OF _ _ _ v, of req ownerId s d e now]
  show "updateSingleTask e now req s =
          ((200, ''Task updated successfully.''),
           propagate e ''Error updating task dependencies:'' (param req) st ownerId
             (s\<lparr>progress := (progress s)(ownerId \<mapsto>
                 d\<lparr>taskCompletions := (taskCompletions d)(param req \<mapsto>
                    \<lparr>tc_complete = Some True, tc_failed = Some (st = ''failed''),
                     tc_timestamp = Some now\<rparr>)\<rparr>)\<rparr>))"
    by simp
next
  assume a: "authorised ''WP'' req = Some ownerId
        \<and> (\<forall>(k, v) \<in> set (body req). isValidTaskStatus (Some v))
        \<and> distinct (map fst (body req)) \<and> (t, JStr st) \<in> set (body req)
        \<and> (st = ''completed'' \<or> st = ''failed'')
        \<and> \<not> unavailable s \<and> progress s ownerId = Some d"
  then have v: "\<forall>(k, v) \<in> set (body req). isValidTaskStatus (Some v)"
    and ne: "body req \<noteq> []" and nu: "st \<noteq> ''uncompleted''" by auto
  let ?d1 = "apply_update
       (concat (map (\<lambda>(t, v). taskUpdateData t (the_status (Some v)) now) (body req))) d"
  have r: "taskCompletions ?d1 t
     = Some \<lparr>tc_complete = Some True, tc_failed = Some (st = ''failed''),
             tc_timestamp = Some now\<rparr>"
    using a nu batch_record[OF v, of t st now d] by simp
  have h: "updateMultipleTasks e now req s =
               ((200, ''Tasks updated successfully.''),
                run_started e ownerId (map (\<lambda>(t, v). (t, the_status (Some v))) (body req))
                  (s\<lparr>progress := (progress s)(ownerId \<mapsto> ?d1)\<rparr>))"
    using a updateMultipleTasks_valid[OF _ ne v, of ownerId s d e now] by simp
  show "\<exists>d1. taskCompletions d1 t
                 = Some \<lparr>tc_complete = Some True, tc_failed = Some (st = ''failed''),
                         tc_timestamp = Some now\<rparr>
           \<and> updateMultipleTasks e now req s =
               ((200, ''Tasks updated successfully.''),
                run_started e ownerId (map (\<lambda>(t, v). (t, the_status (Some v))) (body req))
                  (s\<lparr>progress := (progress s)(ownerId \<mapsto> d1)\<rparr>))"
    using r h by blast
qed

theorem failed_task_stored_complete_witness:
  "updateSingleTask env_plain 2000
       (demo_request ''u1'' ''task2'' [(''state'', JStr ''failed'')]) demo_db
     = ((200, ''Task updated successfully.''),
        demo_db\<lparr>progress := (progress demo_db)(''u1'' \<mapsto>
           demo_doc\<lparr>taskCompletions := (taskCompletions demo_doc)(''task2'' \<mapsto>
              \<lparr>tc_complete = Some True, tc_failed = Some True, tc_timestamp = Some 2000\<rparr>)\<rparr>)\<rparr>,
        [])
   \<and> (\<exists>d1. taskCompletions d1 ''task2''
               = Some \<lparr>tc_complete = Some True, tc_failed = Some True,
                       tc_timestamp = Some 2000\<rparr>
         \<and> updateMultipleTasks env_plain 2000
              (demo_request ''u1'' [] [(''task1'', JStr ''completed''), (''task2'', JStr ''failed'')])
              demo_db
            = ((200, ''Tasks updated successfully.''),
               demo_db\<lparr>progress := (progress demo_db)(''u1'' \<mapsto> d1)\<rparr>, []))"
proof -
  let ?single = "demo_request ''u1'' ''task2'' [(''state'', JStr ''failed'')]"
  let ?entries = "[(''task1'', JStr ''completed''), (''task2'', JStr ''failed'')]"
  let ?batch = "demo_request ''u1'' [] ?entries"
  note inst1 = failed_task_stored_complete
                 [of "''task2''" 2000 ?single "''u1''" "''failed''" demo_db demo_doc env_plain]
  note inst2 = failed_task_stored_complete
                 [of "''task2''" 2000 ?batch "''u1''" "''failed''" demo_db demo_doc env_plain]
  have h1: "authorised ''WP'' ?single = Some ''u1'' \<and> param ?single \<noteq> []
        \<and> map_of (body ?single) ''state'' = Some (JStr ''failed'')
        \<and> (''failed'' = ''completed'' \<or> ''failed'' = ''failed'')
        \<and> \<not> unavailable demo_db \<and> progress demo_db ''u1'' = Some demo_doc"
    by (simp add: demo_authorised demo_available demo_progress) (simp add: demo_request_def)
  have q: "\<And>s. propagate env_plain ''Error updating task dependencies:'' ''task2''
             ''failed'' ''u1'' s = (s, [])"
    by (simp add: propagate_def env_plain_def)
  have p: "param ?single = ''task2''" by (simp add: demo_request_def)
  from inst1 h1 have
    "updateSingleTask env_plain 2000 ?single demo_db =
          ((200, ''Task updated successfully.''),
           propagate env_plain ''Error updating task dependencies:'' (param ?single) ''failed'' ''u1''
             (demo_db\<lparr>progress := (progress demo_db)(''u1'' \<mapsto>
                 demo_doc\<lparr>taskCompletions := (taskCompletions demo_doc)(param ?single \<mapsto>
                    \<lparr>tc_complete = Some True, tc_failed = Some (''failed'' = ''failed''),
                     tc_timestamp = Some 2000\<rparr>)\<rparr>)\<rparr>))"
    by blast
  then have single: "updateSingleTask env_plain 2000 ?single demo_db
     = ((200, ''Task updated successfully.''),
        demo_db\<lparr>progress := (progress demo_db)(''u1'' \<mapsto>
           demo_doc\<lparr>taskCompletions := (taskCompletions demo_doc)(''task2'' \<mapsto>
              \<lparr>tc_complete = Some True, tc_failed = Some True, tc_timestamp = Some 2000\<rparr>)\<rparr>)\<rparr>,
        [])"
    by (simp add: p q)
  have b: "body ?batch = ?entries" by (simp add: demo_request_def)
  have h2: "authorised ''WP'' ?batch = Some ''u1''
        \<and> (\<forall>(k, v) \<in> set (body ?batch). isValidTaskStatus (Some v))
        \<and> distinct (map fst (body ?batch)) \<and> (''task2'', JStr ''failed'') \<in> set (body ?batch)
        \<and> (''failed'' = ''completed'' \<or> ''failed'' = ''failed'')
        \<and> \<not> unavailable demo_db \<and> progress demo_db ''u1'' = Some demo_doc"
    by (simp add: demo_authorised demo_available demo_progress b isValidTaskStatus_def)
  from inst2 h2 have
    "\<exists>d1. taskCompletions d1 ''task2''
                 = Some \<lparr>tc_complete = Some True, tc_failed = Some (''failed'' = ''failed''),
                         tc_timestamp = Some 2000\<rparr>
           \<and> updateMultipleTasks env_plain 2000 ?batch demo_db =
               ((200, ''Tasks updated successfully.''),
                run_started env_plain ''u1''
                  (map (\<lambda>(t, v). (t, the_status (Some v))) (body ?batch))
                  (demo_db\<lparr>progress := (progress demo_db)(''u1'' \<mapsto> d1)\<rparr>))"
    by blast
  then have batch: "\<exists>d1. taskCompletions d1 ''task2''
               = Some \<lparr>tc_complete = Some True, tc_failed = Some True,
                       tc_timestamp = Some 2000\<rparr>
         \<and> updateMultipleTasks env_plain 2000 ?batch demo_db
            = ((200, ''Tasks updated successfully.''),
               demo_db\<lparr>progress := (progress demo_db)(''u1'' \<mapsto> d1)\<rparr>, [])"
    by (simp add: run_started_plain)
  show ?thesis using single batch by blast
qed

section \<open>Properties of the team view\<close>

lemma uniq_onto_set: "set (uniq_onto seen xs) = set seen \<union> set xs"
  by (induction xs arbitrary: seen) auto

lemma uniq_onto_distinct: "distinct seen \<Longrightarrow> distinct (uniq_onto seen xs)"
  by (induction xs arbitrary: seen) auto

lemma set_uniq: "set (uniq xs) = set xs"
  by (simp add: uniq_def uniq_onto_set)

lemma distinct_uniq: "distinct (uniq xs)"
  by (simp add: uniq_def uniq_onto_distinct)

lemma teamMemberIds_distinct: "distinct (fst (teamMemberIds ownerId s))"
  by (auto simp: teamMemberIds_def distinct_uniq split: option.splits)

lemma teamMemberIds_user: "teamMemberIds ownerId (s\<lparr>user := u\<rparr>) = teamMemberIds ownerId s"
  by (simp add: teamMemberIds_def split: option.splits)

lemma formatMembers_user:
  "formatMembers e hData tData (s\<lparr>user := u\<rparr>) ms = formatMembers e hData tData s ms"
  by (induction ms) (auto split: option.splits sum.splits prod.splits)

lemma formatMembers_present:
  "formatMembers e hData tData s ms = (Inr ps, lg) \<Longrightarrow> m \<in> set ms \<Longrightarrow>
   progress s m = Some d \<Longrightarrow>
   \<exists>p. formatProgress e d m hData tData = Inr p \<and> p \<in> set ps"
proof (induction ms arbitrary: ps lg)
  case Nil
  then show ?case by simp
next
  case (Cons a ms)
  then show ?case
    by (fastforce split: option.splits sum.splits prod.splits)
qed

text \<open>
  What holds of every team view that is answered with data: the list of hidden teammates
  has no repetitions and holds exactly the fetched member ids, other than the requester,
  for which the lookup in the requester's \<open>teamHide\<close> object is truthy; the requester
  is never in it; every hidden teammate that has a progress document has its formatted
  progress in the data; and the data and \<open>self\<close> stay the same whatever the \<open>user\<close>
  collection (and with it every \<open>teamHide\<close> map) holds.
\<close>

lemma getTeamProgress_hiding_properties:
  assumes "authorised ''TP'' req = Some ownerId"
    and "getTeamProgress e req s = (TeamProgress dat slf hid, lg)"
  shows "set hid = {i \<in> set (fst (teamMemberIds ownerId s)).
                     i \<noteq> ownerId \<and> hiddenLookup ownerId s i}
     \<and> distinct hid
     \<and> ownerId \<notin> set hid
     \<and> (\<forall>i \<in> set hid. \<forall>d. progress s i = Some d \<longrightarrow>
           (\<exists>hData tData p. getHideoutData e = Inr (Some hData) \<and> getTaskData e = Inr (Some tData)
               \<and> formatProgress e d i hData tData = Inr p \<and> p \<in> set dat))
     \<and> (\<forall>u. \<exists>hid'. fst (getTeamProgress e req (s\<lparr>user := u\<rparr>)) = TeamProgress dat slf hid')"
proof -
  have av: "\<not> unavailable s"
  proof
    assume "unavailable s"
    then show False using assms by (simp add: getTeamProgress_def)
  qed
  have "\<exists>hData tData. getHideoutData e = Inr (Some hData) \<and> getTaskData e = Inr (Some tData)"
  proof (cases "getHideoutData e")
    case (Inl a)
    then show ?thesis using assms av by (simp add: getTeamProgress_def)
  next
    case (Inr h)
    note h = this
    show ?thesis
    proof (cases "getTaskData e")
      case (Inl a)
      then show ?thesis using assms av h by (cases h) (simp_all add: getTeamProgress_def)
    next
      case (Inr t)
      then show ?thesis using assms av h by (cases h; cases t) (simp_all add: getTeamProgress_def)
    qed
  qed
  then obtain hData tData
    where cat: "getHideoutData e = Inr (Some hData)" "getTaskData e = Inr (Some tData)"
    by blast
  obtain ms lg0 where ms: "teamMemberIds ownerId s = (ms, lg0)"
    by (cases "teamMemberIds ownerId s")
  obtain r lg1 where fm0: "formatMembers e hData tData s ms = (r, lg1)"
    by (cases "formatMembers e hData tData s ms")
  have res: "r = Inr dat
      \<and> hid = filter (\<lambda>i. i \<noteq> ownerId \<and> hiddenLookup ownerId s i) ms
      \<and> slf = ownerId"
    using assms av cat ms fm0 by (cases r) (auto simp add: getTeamProgress_def)
  then have fm: "formatMembers e hData tData s ms = (Inr dat, lg1)"
    and hid: "hid = filter (\<lambda>i. i \<noteq> ownerId \<and> hiddenLookup ownerId s i) ms"
    and slf: "slf = ownerId"
    using fm0 by simp_all
  have d: "distinct ms" using teamMemberIds_distinct[of ownerId s] ms by simp
  have 1: "set hid = {i \<in> set (fst (teamMemberIds ownerId s)).
                     i \<noteq> ownerId \<and> hiddenLookup ownerId s i}"
    using hid ms by auto
  have 2: "distinct hid" using hid d by simp
  have 3: "ownerId \<notin> set hid" using hid by simp
  have 4: "\<forall>i \<in> set hid. \<forall>d. progress s i = Some d \<longrightarrow>
           (\<exists>hData tData p. getHideoutData e = Inr (Some hData) \<and> getTaskData e = Inr (Some tData)
               \<and> formatProgress e d i hData tData = Inr p \<and> p \<in> set dat)"
  proof (intro ballI allI impI)
    fix i d assume i: "i \<in> set hid" and p: "progress s i = Some d"
    from i have "i \<in> set ms" using hid by simp
    from formatMembers_present[OF fm this p] cat
    show "\<exists>hData tData p. getHideoutData e = Inr (Some hData) \<and> getTaskData e = Inr (Some tData)
               \<and> formatProgress e d i hData tData = Inr p \<and> p \<in> set dat" by blast
  qed
  have 5: "\<forall>u. \<exists>hid'. fst (getTeamProgress e req (s\<lparr>user := u\<rparr>)) = TeamProgress dat slf hid'"
    using assms(1) av cat ms fm slf
    by (simp add: getTeamProgress_def teamMemberIds_user formatMembers_user)
  show ?thesis using 1 2 3 4 5 by blast
qed


text \<open>
  For an id that is not the name of an inherited property, the lookup is truthy exactly
  when the \<open>teamHide\<close> map sets the id to true.
\<close>

lemma hiddenLookup_own:
  "i \<notin> set objectPrototypeKeys \<Longrightarrow>
   hiddenLookup ownerId s i \<longleftrightarrow> hiddenTeammatesMap ownerId s i = Some True"
  by (auto simp: hiddenLookup_def split: option.splits)

lemma demo_team_view:
  "getTeamProgress env_plain (demo_request ''u1'' [] []) demo_db
     = (TeamProgress [''u1'', ''u2''] ''u1'' [''u2''],
        [LogWarn ''Progress document not found for member''])"
  by (simp add: getTeamProgress_def authorised_def demo_request_def env_plain_def
      teamMemberIds_def hiddenLookup_def hiddenTeammatesMap_def objectPrototypeKeys_def
      demo_db_def uniq_def)

text \<open>
  C5. The requester \<open>u1\<close> of \<open>prototype_db\<close> has no \<open>teamHide\<close> map, so no teammate is
  marked as hidden; yet the teammate whose id is \<open>constructor\<close> is listed among the
  hidden teammates, because the lookup \<open>hiddenTeammatesMap?.[id]\<close> finds the inherited
  property of that name. The teammate's progress is in the data all the same.
\<close>

theorem getTeamProgress_lists_inherited_property_name:
  "hiddenTeammatesMap ''u1'' prototype_db ''constructor'' = None
   \<and> getTeamProgress env_plain (demo_request ''u1'' [] []) prototype_db
       = (TeamProgress [''u1'', ''constructor''] ''u1'' [''constructor''], [])"
  by (simp add: getTeamProgress_def authorised_def demo_request_def env_plain_def
      teamMemberIds_def hiddenLookup_def hiddenTeammatesMap_def objectPrototypeKeys_def
      prototype_db_def uniq_def)

section \<open>Properties of the hideout graph\<close>

lemma add_requirement_edges:
  "set (g_edges (fst (add_requirement cat lvl req acc))) =
     set (g_edges (fst acc)) \<union>
       {(rid, hl_id lvl) | rid. declared req \<and> requiredLevelId cat req = Some rid}"
  by (auto simp: add_requirement_def declared_def safeAddEdge_def safeAddNode_def
      split: option.splits)

lemma add_requirement_nodes:
  "set (g_nodes (fst (add_requirement cat lvl req acc))) =
     set (g_nodes (fst acc)) \<union> {rid. declared req \<and> requiredLevelId cat req = Some rid}"
  by (auto simp: add_requirement_def declared_def safeAddEdge_def safeAddNode_def
      split: option.splits)

lemma add_requirement_warnings:
  "set (snd (add_requirement cat lvl req acc)) =
     set (snd acc) \<union>
       {MissingRequiredLevel sid (req_level req) (hl_id lvl) | sid.
          req_station_id req = Some sid \<and> sid \<noteq> [] \<and> requiredLevelId cat req = None}"
  by (auto simp: add_requirement_def split: option.splits)

lemma add_requirement_distinct:
  "distinct (g_edges (fst acc)) \<Longrightarrow> distinct (g_nodes (fst acc)) \<Longrightarrow>
   distinct (g_edges (fst (add_requirement cat lvl req acc)))
   \<and> distinct (g_nodes (fst (add_requirement cat lvl req acc)))"
  by (auto simp: add_requirement_def safeAddEdge_def safeAddNode_def split: option.splits)

lemma fold_requirements:
  "set (g_edges (fst (fold (add_requirement cat lvl) reqs acc))) =
     set (g_edges (fst acc)) \<union>
       {(rid, hl_id lvl) | rid req. req \<in> set reqs \<and> declared req \<and> requiredLevelId cat req = Some rid}"
  "set (g_nodes (fst (fold (add_requirement cat lvl) reqs acc))) =
     set (g_nodes (fst acc)) \<union>
       {rid. \<exists>req. req \<in> set reqs \<and> declared req \<and> requiredLevelId cat req = Some rid}"
  "set (snd (fold (add_requirement cat lvl) reqs acc)) =
     set (snd acc) \<union>
       {MissingRequiredLevel sid (req_level req) (hl_id lvl) | sid req.
          req \<in> set reqs \<and> req_station_id req = Some sid \<and> sid \<noteq> []
          \<and> requiredLevelId cat req = None}"
  by (induction reqs arbitrary: acc;
      auto simp: add_requirement_edges add_requirement_nodes add_requirement_warnings)+


lemma fold_requirements_distinct:
  "distinct (g_edges (fst acc)) \<Longrightarrow> distinct (g_nodes (fst acc)) \<Longrightarrow>
   distinct (g_edges (fst (fold (add_requirement cat lvl) reqs acc)))
   \<and> distinct (g_nodes (fst (fold (add_requirement cat lvl) reqs acc)))"
  by (induction reqs arbitrary: acc) (simp_all add: add_requirement_distinct)

lemma add_level_sets:
  "set (g_edges (fst (add_level cat lvl acc))) = set (g_edges (fst acc)) \<union> level_edges cat lvl"
  "set (g_nodes (fst (add_level cat lvl acc))) =
     set (g_nodes (fst acc)) \<union> {hl_id lvl} \<union> fst ` level_edges cat lvl"
  "set (snd (add_level cat lvl acc)) = set (snd acc) \<union> level_warnings cat lvl"
  by (auto simp: add_level_def fold_requirements level_edges_def level_warnings_def
      safeAddNode_def image_iff)

lemma add_level_distinct:
  "distinct (g_edges (fst acc)) \<Longrightarrow> distinct (g_nodes (fst acc)) \<Longrightarrow>
   distinct (g_edges (fst (add_level cat lvl acc)))
   \<and> distinct (g_nodes (fst (add_level cat lvl acc)))"
  unfolding add_level_def
  by (rule fold_requirements_distinct) (auto simp: safeAddNode_def)

lemma fold_levels_sets:
  "set (g_edges (fst (fold (add_level cat) lvls acc))) =
     set (g_edges (fst acc)) \<union> (\<Union>lvl \<in> set lvls. level_edges cat lvl)"
  "set (g_nodes (fst (fold (add_level cat) lvls acc))) =
     set (g_nodes (fst acc)) \<union> hl_id ` set lvls \<union> (\<Union>lvl \<in> set lvls. fst ` level_edges cat lvl)"
  "set (snd (fold (add_level cat) lvls acc)) =
     set (snd acc) \<union> (\<Union>lvl \<in> set lvls. level_warnings cat lvl)"
  by (induction lvls arbitrary: acc; auto simp: add_level_sets)+

lemma fold_levels_distinct:
  "distinct (g_edges (fst acc)) \<Longrightarrow> distinct (g_nodes (fst acc)) \<Longrightarrow>
   distinct (g_edges (fst (fold (add_level cat) lvls acc)))
   \<and> distinct (g_nodes (fst (fold (add_level cat) lvls acc)))"
  by (induction lvls arbitrary: acc) (simp_all add: add_level_distinct)

lemma fold_stations_sets:
  "set (g_edges (fst (fold (\<lambda>station acc. fold (add_level cat) (hs_levels station) acc) sts acc))) =
     set (g_edges (fst acc)) \<union> (\<Union>st \<in> set sts. \<Union>lvl \<in> set (hs_levels st). level_edges cat lvl)"
  "set (g_nodes (fst (fold (\<lambda>station acc. fold (add_level cat) (hs_levels station) acc) sts acc))) =
     set (g_nodes (fst acc)) \<union> (\<Union>st \<in> set sts. hl_id ` set (hs_levels st))
       \<union> (\<Union>st \<in> set sts. \<Union>lvl \<in> set (hs_levels st). fst ` level_edges cat lvl)"
  "set (snd (fold (\<lambda>station acc. fold (add_level cat) (hs_levels station) acc) sts acc)) =
     set (snd acc) \<union> (\<Union>st \<in> set sts. \<Union>lvl \<in> set (hs_levels st). level_warnings cat lvl)"
  by (induction sts arbitrary: acc; auto simp: fold_levels_sets)+

lemma fold_stations_distinct:
  "distinct (g_edges (fst acc)) \<Longrightarrow> distinct (g_nodes (fst acc)) \<Longrightarrow>
   distinct (g_edges (fst (fold (\<lambda>station acc. fold (add_level cat) (hs_levels station) acc) sts acc)))
   \<and> distinct (g_nodes (fst (fold (\<lambda>station acc. fold (add_level cat) (hs_levels station) acc) sts acc)))"
  by (induction sts arbitrary: acc) (simp_all add: fold_levels_distinct)

lemma requiredLevelId_Some:
  "requiredLevelId cat req = Some rid \<Longrightarrow>
   \<exists>st l. st \<in> set cat \<and> Some (hs_id st) = req_station_id req \<and> l \<in> set (hs_levels st)
      \<and> hl_level l = req_level req \<and> hl_id l = rid \<and> rid \<noteq> []"
  by (auto simp: requiredLevelId_def find_Some_iff split: option.splits if_splits) (metis nth_mem)+

lemma buildHideoutGraph_edges:
  "set (g_edges (fst (buildHideoutGraph stations))) =
     (\<Union>st \<in> set stations. \<Union>lvl \<in> set (hs_levels st). level_edges stations lvl)"
  by (simp add: buildHideoutGraph_def fold_stations_sets createGraph_def)

lemma buildHideoutGraph_nodes:
  "set (g_nodes (fst (buildHideoutGraph stations))) =
     (\<Union>st \<in> set stations. hl_id ` set (hs_levels st))"
proof -
  have "(\<Union>st \<in> set stations. \<Union>lvl \<in> set (hs_levels st). fst ` level_edges stations lvl)
          \<subseteq> (\<Union>st \<in> set stations. hl_id ` set (hs_levels st))"
    by (auto simp: level_edges_def dest!: requiredLevelId_Some)
  then show ?thesis
    unfolding buildHideoutGraph_def fold_stations_sets by (simp add: createGraph_def) blast
qed

lemma buildHideoutGraph_warnings:
  "set (snd (buildHideoutGraph stations)) =
     (\<Union>st \<in> set stations. \<Union>lvl \<in> set (hs_levels st). level_warnings stations lvl)"
  by (simp add: buildHideoutGraph_def fold_stations_sets createGraph_def)

lemma buildHideoutGraph_distinct:
  "distinct (g_edges (fst (buildHideoutGraph stations)))
   \<and> distinct (g_nodes (fst (buildHideoutGraph stations)))"
  unfolding buildHideoutGraph_def
  by (rule fold_stations_distinct) (simp_all add: createGraph_def)


lemma find_first_unique:
  "x \<in> set xs \<Longrightarrow> distinct (map f xs) \<Longrightarrow> find (\<lambda>y. f y = f x) xs = Some x"
  by (induction xs) (auto simp: image_iff)

lemma requiredLevelId_complete:
  assumes "st \<in> set cat" "req_station_id req = Some (hs_id st)" "l \<in> set (hs_levels st)"
    "hl_level l = req_level req" "distinct (map hs_id cat)"
    "distinct (map hl_level (hs_levels st))" "hl_id l \<noteq> []"
  shows "requiredLevelId cat req = Some (hl_id l)"
proof -
  have 1: "find (\<lambda>s. Some (hs_id s) = req_station_id req) cat = Some st"
    using find_first_unique[OF assms(1) assms(5)] assms(2) by (simp add: eq_commute)
  have 2: "find (\<lambda>x. hl_level x = req_level req) (hs_levels st) = Some l"
    using find_first_unique[OF assms(3) assms(6)] assms(4) by simp
  show ?thesis using 1 2 assms(7) by (simp add: requiredLevelId_def)
qed

lemma chain_graph:
  "buildHideoutGraph chain_catalog =
     (\<lparr>g_nodes = [''gen3'', ''gen2'', ''gen1''],
       g_edges = [(''gen2'', ''gen3''), (''gen1'', ''gen2'')]\<rparr>, [])"
  by (simp add: buildHideoutGraph_def chain_catalog_def add_level_def add_requirement_def
      requiredLevelId_def safeAddNode_def safeAddEdge_def createGraph_def)

lemma broken_graph:
  "buildHideoutGraph broken_catalog =
     (\<lparr>g_nodes = [''vents1'', ''gen1''], g_edges = [(''gen1'', ''vents1'')]\<rparr>,
      [MissingRequiredLevel ''generator'' 5 ''vents1'',
       MissingRequiredLevel ''lavatory'' 1 ''vents1''])"
  by (simp add: buildHideoutGraph_def broken_catalog_def add_level_def add_requirement_def
      requiredLevelId_def safeAddNode_def safeAddEdge_def createGraph_def)

text \<open>
  C7. For every catalog \<open>stations\<close>: the nodes of the built graph are the ids of all
  levels; its edges are exactly the pairs (required level id, dependent level id) of the
  requirements that name a station and for which a level id is found; its warnings are
  exactly those of the requirements that name a station and for which none is found
  (such a requirement adds nothing else, and a requirement that names no station adds
  nothing at all). The level found is one of the referenced station whose declared
  \<open>level\<close> number is the required one; and where station ids and the level numbers of
  the station are unique, every level with the required number and a non-empty id in the
  referenced station is found.
\<close>

theorem buildHideoutGraph_resolves_by_level_number:
  "set (g_nodes (fst (buildHideoutGraph stations)))
     = (\<Union>st \<in> set stations. hl_id ` set (hs_levels st))
   \<and> set (g_edges (fst (buildHideoutGraph stations)))
     = {(rid, hl_id lvl) | rid lvl st req.
          st \<in> set stations \<and> lvl \<in> set (hs_levels st)
          \<and> req \<in> set (hl_stationLevelRequirements lvl)
          \<and> declared req \<and> requiredLevelId stations req = Some rid}
   \<and> set (snd (buildHideoutGraph stations))
     = {MissingRequiredLevel sid (req_level req) (hl_id lvl) | sid lvl st req.
          st \<in> set stations \<and> lvl \<in> set (hs_levels st)
          \<and> req \<in> set (hl_stationLevelRequirements lvl)
          \<and> req_station_id req = Some sid \<and> sid \<noteq> []
          \<and> requiredLevelId stations req = None}
   \<and> (\<forall>req rid. requiredLevelId stations req = Some rid \<longrightarrow>
         (\<exists>st l. st \<in> set stations \<and> Some (hs_id st) = req_station_id req
            \<and> l \<in> set (hs_levels st) \<and> hl_level l = req_level req \<and> hl_id l = rid))
   \<and> (\<forall>req st l. distinct (map hs_id stations) \<and> st \<in> set stations
         \<and> distinct (map hl_level (hs_levels st))
         \<and> req_station_id req = Some (hs_id st) \<and> l \<in> set (hs_levels st)
         \<and> hl_level l = req_level req \<and> hl_id l \<noteq> [] \<longrightarrow>
         requiredLevelId stations req = Some (hl_id l))"
proof (intro conjI)
  show "set (g_nodes (fst (buildHideoutGraph stations)))
     = (\<Union>st \<in> set stations. hl_id ` set (hs_levels st))"
    by (rule buildHideoutGraph_nodes)
  show "set (g_edges (fst (buildHideoutGraph stations)))
     = {(rid, hl_id lvl) | rid lvl st req.
          st \<in> set stations \<and> lvl \<in> set (hs_levels st)
          \<and> req \<in> set (hl_stationLevelRequirements lvl)
          \<and> declared req \<and> requiredLevelId stations req = Some rid}"
    unfolding buildHideoutGraph_edges level_edges_def by blast
  show "set (snd (buildHideoutGraph stations))
     = {MissingRequiredLevel sid (req_level req) (hl_id lvl) | sid lvl st req.
          st \<in> set stations \<and> lvl \<in> set (hs_levels st)
          \<and> req \<in> set (hl_stationLevelRequirements lvl)
          \<and> req_station_id req = Some sid \<and> sid \<noteq> []
          \<and> requiredLevelId stations req = None}"
    unfolding buildHideoutGraph_warnings level_warnings_def by blast
  show "\<forall>req rid. requiredLevelId stations req = Some rid \<longrightarrow>
         (\<exists>st l. st \<in> set stations \<and> Some (hs_id st) = req_station_id req
            \<and> l \<in> set (hs_levels st) \<and> hl_level l = req_level req \<and> hl_id l = rid)"
    using requiredLevelId_Some by blast
  show "\<forall>req st l. distinct (map hs_id stations) \<and> st \<in> set stations
         \<and> distinct (map hl_level (hs_levels st))
         \<and> req_station_id req = Some (hs_id st) \<and> l \<in> set (hs_levels st)
         \<and> hl_level l = req_level req \<and> hl_id l \<noteq> [] \<longrightarrow>
         requiredLevelId stations req = Some (hl_id l)"
    using requiredLevelId_complete by blast
qed

text \<open>
  In \<open>chain_catalog\<close> the levels are listed from the highest down, so level number 2
  sits at index 1: the requirement of \<open>gen3\<close> on level 2 resolves to \<open>gen2\<close>. In
  \<open>broken_catalog\<close> two edges are skipped with a warning, one requirement is passed
  over, and the node and the remaining edge are built.
\<close>

theorem buildHideoutGraph_resolves_by_level_number_witness:
  "requiredLevelId chain_catalog \<lparr>req_station_id = Some ''generator'', req_level = 2\<rparr>
     = Some ''gen2''
   \<and> (''gen2'', ''gen3'') \<in> set (g_edges (fst (buildHideoutGraph chain_catalog)))
   \<and> buildHideoutGraph broken_catalog =
       (\<lparr>g_nodes = [''vents1'', ''gen1''], g_edges = [(''gen1'', ''vents1'')]\<rparr>,
        [MissingRequiredLevel ''generator'' 5 ''vents1'',
         MissingRequiredLevel ''lavatory'' 1 ''vents1''])"
proof -
  let ?req = "\<lparr>req_station_id = Some ''generator'', req_level = 2\<rparr>"
  let ?gen2 = "\<lparr>hl_id = ''gen2'', hl_level = 2, hl_constructionTime = 20,
     hl_stationLevelRequirements = [\<lparr>req_station_id = Some ''generator'', req_level = 1\<rparr>]\<rparr>"
  let ?gen3 = "\<lparr>hl_id = ''gen3'', hl_level = 3, hl_constructionTime = 30,
     hl_stationLevelRequirements = [?req]\<rparr>"
  obtain st where st: "chain_catalog = [st]" "hs_id st = ''generator''"
    "?gen2 \<in> set (hs_levels st)" "?gen3 \<in> set (hs_levels st)"
    "distinct (map hl_level (hs_levels st))"
    by (simp add: chain_catalog_def)
  have s0: "distinct (map hs_id chain_catalog)" "st \<in> set chain_catalog"
    by (simp_all add: st(1))
  note inst = buildHideoutGraph_resolves_by_level_number [of chain_catalog]
  from inst have complete:
    "\<forall>req st l. distinct (map hs_id chain_catalog) \<and> st \<in> set chain_catalog
         \<and> distinct (map hl_level (hs_levels st))
         \<and> req_station_id req = Some (hs_id st) \<and> l \<in> set (hs_levels st)
         \<and> hl_level l = req_level req \<and> hl_id l \<noteq> [] \<longrightarrow>
         requiredLevelId chain_catalog req = Some (hl_id l)"
    by blast
  have "distinct (map hs_id chain_catalog) \<and> st \<in> set chain_catalog
         \<and> distinct (map hl_level (hs_levels st))
         \<and> req_station_id ?req = Some (hs_id st) \<and> ?gen2 \<in> set (hs_levels st)
         \<and> hl_level ?gen2 = req_level ?req \<and> hl_id ?gen2 \<noteq> []"
    using s0 st(2-5) by simp
  with complete have "requiredLevelId chain_catalog ?req = Some (hl_id ?gen2)" by blast
  then have r: "requiredLevelId chain_catalog ?req = Some ''gen2''" by simp
  from inst have edges:
    "set (g_edges (fst (buildHideoutGraph chain_catalog)))
     = {(rid, hl_id lvl) | rid lvl st req.
          st \<in> set chain_catalog \<and> lvl \<in> set (hs_levels st)
          \<and> req \<in> set (hl_stationLevelRequirements lvl)
          \<and> declared req \<and> requiredLevelId chain_catalog req = Some rid}"
    by (elim conjE) assumption
  have "st \<in> set chain_catalog \<and> ?gen3 \<in> set (hs_levels st)
          \<and> ?req \<in> set (hl_stationLevelRequirements ?gen3)
          \<and> declared ?req \<and> requiredLevelId chain_catalog ?req = Some ''gen2''"
    using st(4) r s0 by (simp add: declared_def)
  then have "(''gen2'', hl_id ?gen3) \<in> set (g_edges (fst (buildHideoutGraph chain_catalog)))"
    unfolding edges
    by (intro CollectI exI[of _ "''gen2''"] exI[of _ ?gen3] exI[of _ st] exI[of _ ?req]) simp
  then have e: "(''gen2'', ''gen3'') \<in> set (g_edges (fst (buildHideoutGraph chain_catalog)))"
    by simp
  show ?thesis using r e broken_graph by blast
qed

lemma fold_total:
  "fold (\<lambda>p (total::int). case f p of None \<Rightarrow> total | Some q \<Rightarrow> total + c q) ps t0
     = t0 + sum_list (map (\<lambda>p. case f p of None \<Rightarrow> 0 | Some q \<Rightarrow> c q) ps)"
  by (induction ps arbitrary: t0) (auto split: option.splits)

lemma getPredecessors_distinct:
  "distinct (g_edges g) \<Longrightarrow> distinct (getPredecessors g n)"
  unfolding getPredecessors_def
  by (rule distinct_map[THEN iffD2]) (auto simp: inj_on_def prod_eq_iff)

lemma getPredecessors_set: "set (getPredecessors g n) = {a. (a, n) \<in> set (g_edges g)}"
  by (auto simp: getPredecessors_def image_iff)

lemma module_found:
  "getModuleById (createHideoutModules stations g) i = Some m \<Longrightarrow>
     hl_id m = i \<and> predecessors m = getPredecessors g i"
proof -
  assume "getModuleById (createHideoutModules stations g) i = Some m"
  then have "m \<in> set (createHideoutModules stations g)" and "hl_id m = i"
    by (auto simp: getModuleById_def find_Some_iff)
  then show ?thesis by (auto simp: createHideoutModules_def)
qed

text \<open>
  What the function does with any list of modules: the module's own time plus the times
  of the entries of its \<open>predecessors\<close> list that are modules.
\<close>

lemma total_time_over_predecessors_list:
  "getModuleById modules moduleId = Some m \<Longrightarrow>
   getTotalConstructionTime modules moduleId =
     hl_constructionTime m +
     (\<Sum>p \<leftarrow> predecessors m.
        case getModuleById modules p of None \<Rightarrow> 0 | Some q \<Rightarrow> hl_constructionTime q)"
  by (simp add: getTotalConstructionTime_def fold_total)

text \<open>
  For the modules built from a catalog, with \<open>predecessors\<close> filled by
  \<open>getPredecessors\<close>: the total construction time of a module id is 0 when no module
  has that id, and otherwise the module's own time plus the times of its direct
  predecessors in the graph (the levels with an edge into it), each counted once.
\<close>

lemma getTotalConstructionTime_direct_predecessors:
  "getTotalConstructionTime (hideoutModulesOf stations) moduleId =
     (case getModuleById (hideoutModulesOf stations) moduleId of
        None \<Rightarrow> 0
      | Some m \<Rightarrow>
          hl_constructionTime m +
          (\<Sum>p \<in> {a. (a, moduleId) \<in> set (g_edges (fst (buildHideoutGraph stations)))}.
             case getModuleById (hideoutModulesOf stations) p of
               None \<Rightarrow> 0
             | Some q \<Rightarrow> hl_constructionTime q))"
proof (cases "getModuleById (hideoutModulesOf stations) moduleId")
  case None
  then show ?thesis by (simp add: getTotalConstructionTime_def)
next
  case (Some m)
  let ?g = "fst (buildHideoutGraph stations)"
  from Some have p: "predecessors m = getPredecessors ?g moduleId"
    using module_found[of stations ?g moduleId m] by (simp add: hideoutModulesOf_def)
  have d: "distinct (getPredecessors ?g moduleId)"
    using buildHideoutGraph_distinct getPredecessors_distinct by blast
  show ?thesis
    using Some
    by (simp add: getTotalConstructionTime_def fold_total p
        sum_list_distinct_conv_sum_set[OF d] getPredecessors_set)
qed

lemma chain_modules:
  "hideoutModulesOf chain_catalog =
     [\<lparr>hl_id = ''gen3'', hl_level = 3, hl_constructionTime = 30,
       hl_stationLevelRequirements = [\<lparr>req_station_id = Some ''generator'', req_level = 2\<rparr>],
       stationId = ''generator'', predecessors = [''gen2''], successors = [],
       parents = [''gen2'', ''gen1''], children = []\<rparr>,
      \<lparr>hl_id = ''gen2'', hl_level = 2, hl_constructionTime = 20,
       hl_stationLevelRequirements = [\<lparr>req_station_id = Some ''generator'', req_level = 1\<rparr>],
       stationId = ''generator'', predecessors = [''gen1''], successors = [''gen3''],
       parents = [''gen1''], children = [''gen3'']\<rparr>,
      \<lparr>hl_id = ''gen1'', hl_level = 1, hl_constructionTime = 10,
       hl_stationLevelRequirements = [],
       stationId = ''generator'', predecessors = [], successors = [''gen2''],
       parents = [], children = [''gen2'', ''gen3'']\<rparr>]"
  unfolding hideoutModulesOf_def chain_graph
  by (simp add: createHideoutModules_def chain_catalog_def
      getPredecessors_def getSuccessors_def getParents_def getChildren_def uniq_def)

text \<open>
  Had the function gone through the \<open>parents\<close> of a module, its transitive ancestors,
  the total of \<open>gen3\<close> in \<open>chain_catalog\<close> would be 60.
\<close>

lemma total_time_over_parents_list:
  "getTotalConstructionTime
     (map (\<lambda>m. m\<lparr>predecessors := parents m\<rparr>) (hideoutModulesOf chain_catalog)) ''gen3'' = 60"
  by (simp add: chain_modules getModuleById_def getTotalConstructionTime_def)


section \<open>Properties of the store migration\<close>

text \<open>
  C2, as stated, fails on \<open>zero_level_state\<close>: the mode selector and both mode objects
  are there, and the legacy level has its counterpart in the pvp object, but that
  counterpart is 0, which \<open>!this.pvp?.level\<close> takes for a missing one. The state is
  migrated: it is patched and written to the store.
\<close>

theorem zero_level_state_is_migrated:
  "currentGameMode zero_level_state = Some Pvp
   \<and> pvp zero_level_state = Some \<lparr>up_level = Some 0, up_rest = ()\<rparr>
   \<and> pve zero_level_state = Some \<lparr>up_level = Some 1, up_rest = ()\<rparr>
   \<and> us_level zero_level_state = Some 10
   \<and> needsMigration zero_level_state
   \<and> snd (migrateDataIfNeeded demo_store_env zero_level_state)
       = [ConsoleLog ''Migrating legacy data structure to gamemode-aware structure'',
          Patch zero_level_state, SetDoc ''u1'' zero_level_state]"
  by (simp add: zero_level_state_def needsMigration_def no_level_def migrateDataIfNeeded_def
      demo_store_env_def Let_def)

text \<open>
  C2, as amended. A state with a mode selector and both mode objects, in which either
  there is no legacy top-level level or the pvp object has a level of its own that is
  not 0, needs no migration: \<open>migrateDataIfNeeded\<close> returns the state as it is and does nothing
  else (no log line, no patch, no write), whatever the migration function, the patch
  and the login state are.
\<close>

theorem migrateDataIfNeeded_idempotent:
  assumes "currentGameMode st = Some mode" and "pvp st = Some p" and "pve st = Some q"
    and "us_level st = None \<or> (\<exists>n. up_level p = Some n \<and> n \<noteq> 0)"
  shows "\<not> needsMigration st \<and> migrateDataIfNeeded e st = (st, [])"
  using assms by (auto simp: migrateDataIfNeeded_def needsMigration_def no_level_def)

theorem migrateDataIfNeeded_idempotent_witness:
  "us_level migrated_state = Some 10
   \<and> \<not> needsMigration migrated_state
   \<and> migrateDataIfNeeded demo_store_env migrated_state = (migrated_state, [])"
proof -
  have 1: "currentGameMode migrated_state = Some Pvp" by (simp add: migrated_state_def)
  have 2: "pvp migrated_state = Some \<lparr>up_level = Some 10, up_rest = ()\<rparr>"
    by (simp add: migrated_state_def)
  have 3: "pve migrated_state = Some \<lparr>up_level = Some 1, up_rest = ()\<rparr>"
    by (simp add: migrated_state_def)
  have 4: "us_level migrated_state = None
     \<or> (\<exists>n. up_level \<lparr>up_level = Some 10, up_rest = ()\<rparr> = Some n \<and> n \<noteq> 0)"
    by simp
  have 5: "us_level migrated_state = Some 10" by (simp add: migrated_state_def)
  show ?thesis
    using 5 migrateDataIfNeeded_idempotent [OF 1 2 3 4, of demo_store_env] by blast
qed

end
